theory Spec2Isabelle
  imports Complex_Main "HOL-Library.Char_ord" "HOL-Library.List_Lexorder"
    "HOL-Library.Log_Nat"
begin

section \<open>Regional delivery statistics of \<^verbatim>\<open>miniProject/app_region_stats.py\<close>\<close>

text \<open>
  The script reads three tables (orders, customers, order items), joins them, derives
  per-order delay flags and aggregates them per customer state. The tables are pandas
  data frames; a data frame is modelled as the list of its rows, in row order, and a
  row as a record of its cells. Every cell of a pandas column may be missing (\<open>NaN\<close>,
  \<open>NaT\<close>, \<open>None\<close>), so the cells read from the files are \<open>option\<close> values, and every
  pandas operation below is written with what it does on a missing cell.

  Numbers: a timestamp is its number of nanoseconds since the epoch (pandas stores
  exactly that), a count is a \<open>nat\<close>. A \<open>float64\<close> cell is a rational number or one
  of the special values \<open>inf\<close>, \<open>-inf\<close> and \<open>NaN\<close> (type \<open>pyfloat\<close>). The quotient,
  the product and the rounding that make the two ratio columns are the \<open>float64\<close>
  operations themselves: each result is the exact result rounded to the nearest
  number with 53 significant bits, ties to even, with gradual underflow and with
  overflow to an infinity. A sum of prices is the exact sum: the rounding error that
  pandas' summation adds to it is outside the model, as are the sign of a zero and
  the range of the 64-bit integers (timestamps and counts).
\<close>

subsection \<open>The three input tables\<close>

type_synonym timestamp = "int option"

record order =
  order_id :: "string option"
  customer_id :: "string option"
  order_status :: "string option"
  order_purchase_timestamp :: timestamp
  order_delivered_customer_date :: timestamp
  order_estimated_delivery_date :: timestamp

record customer =
  cust_customer_id :: "string option"
  cust_customer_state :: "string option"

record order_item =
  item_order_id :: "string option"
  item_price :: "rat option"

text \<open>
  The merged frame \<open>df\<close>: the order columns, then \<open>customer_state\<close> (first merge), then
  \<open>price\<close> (second merge, after \<open>fillna({'price': 0})\<close>, hence never missing).
\<close>

record order_cust = order +
  customer_state :: "string option"

record order_row = order_cust +
  price :: rat

subsection \<open>Column operations of pandas\<close>

text \<open>Dropping the missing cells of a column, as every pandas reduction does first.\<close>

fun dropna :: "'a option list \<Rightarrow> 'a list" where
  "dropna [] = []"
| "dropna (None # xs) = dropna xs"
| "dropna (Some x # xs) = x # dropna xs"

text \<open>\<open>Series.max()\<close> of a timestamp column: missing cells are skipped, and the
  maximum of no cell at all is \<open>NaT\<close>.\<close>

fun series_max :: "timestamp list \<Rightarrow> timestamp" where
  "series_max [] = None"
| "series_max (None # ts) = series_max ts"
| "series_max (Some t # ts) =
     (case series_max ts of None \<Rightarrow> Some t | Some m \<Rightarrow> Some (max t m))"

text \<open>One day, \<open>pd.Timedelta(days=1)\<close>, in nanoseconds.\<close>

definition day_ns :: int where
  "day_ns = 86400000000000"

text \<open>Timestamp plus a duration, difference of two timestamps, and the comparison
  \<open><\<close>: \<open>NaT\<close> is absorbing for the arithmetic and every comparison with \<open>NaT\<close> is
  false.\<close>

definition ts_add :: "timestamp \<Rightarrow> int \<Rightarrow> timestamp" where
  "ts_add t d = (case t of None \<Rightarrow> None | Some a \<Rightarrow> Some (a + d))"

definition ts_sub :: "timestamp \<Rightarrow> timestamp \<Rightarrow> int option" where
  "ts_sub a b =
     (case a of None \<Rightarrow> None
      | Some x \<Rightarrow> (case b of None \<Rightarrow> None | Some y \<Rightarrow> Some (x - y)))"

definition ts_lt :: "timestamp \<Rightarrow> timestamp \<Rightarrow> bool" where
  "ts_lt a b =
     (case a of None \<Rightarrow> False
      | Some x \<Rightarrow> (case b of None \<Rightarrow> False | Some y \<Rightarrow> x < y))"

text \<open>\<open>.dt.days\<close> of a duration: the whole days, rounded towards minus infinity
  (\<open>div\<close> on \<open>int\<close> is the floor division); missing stays missing.\<close>

definition dt_days :: "int option \<Rightarrow> int option" where
  "dt_days d = (case d of None \<Rightarrow> None | Some n \<Rightarrow> Some (n div day_ns))"

subsection \<open>The two left merges\<close>

text \<open>
  \<open>pd.merge(left, right, on=key, how='left')\<close> keeps every left row, in order; a left
  row with \<open>n > 0\<close> matching right rows appears \<open>n\<close> times, once per match in the
  order of the right table, and a left row without a match appears once with the
  right columns missing. pandas matches a missing key with a missing key.
  \<open>left_matches\<close> gives, for one left key, the right cells to attach.
\<close>

definition left_matches :: "'k \<Rightarrow> ('k \<times> 'v) list \<Rightarrow> 'v option list" where
  "left_matches key right =
     (let ms = map snd (filter (\<lambda>kv. fst kv = key) right)
      in if ms = [] then [None] else map Some ms)"

text \<open>\<open>df = pd.merge(orders, customers[['customer_id', 'customer_state']], ...)\<close>;
  the attached cell is missing when there is no match or when the matching
  customer has no state.\<close>

definition merge_customers :: "order list \<Rightarrow> customer list \<Rightarrow> order_cust list" where
  "merge_customers orders customers =
     concat (map (\<lambda>ord.
         map (\<lambda>m. order.extend ord
                (order_cust.fields (case m of None \<Rightarrow> None | Some st \<Rightarrow> st)))
           (left_matches (customer_id ord)
              (map (\<lambda>c. (cust_customer_id c, cust_customer_state c)) customers)))
       orders)"

text \<open>\<open>order_items.groupby('order_id')['price'].sum().reset_index()\<close>: one row per
  order id that is not missing, in sorted order of the ids, with the sum of the
  prices of its items; a missing price is skipped by the sum.\<close>

definition group_prices :: "order_item list \<Rightarrow> string \<Rightarrow> rat list" where
  "group_prices order_items k =
     dropna (map item_price (filter (\<lambda>i. item_order_id i = Some k) order_items))"

definition order_values :: "order_item list \<Rightarrow> (string \<times> rat) list" where
  "order_values order_items =
     map (\<lambda>k. (k, sum_list (group_prices order_items k)))
       (sort (remdups (dropna (map item_order_id order_items))))"

text \<open>\<open>.fillna({'price': 0})\<close> on one cell.\<close>

definition fillna0 :: "rat option \<Rightarrow> rat" where
  "fillna0 p = (case p of None \<Rightarrow> 0 | Some v \<Rightarrow> v)"

definition merge_order_values :: "order_cust list \<Rightarrow> (string \<times> rat) list \<Rightarrow> order_row list" where
  "merge_order_values df ov =
     concat (map (\<lambda>r.
         map (\<lambda>m. order_cust.extend r (order_row.fields (fillna0 m)))
           (left_matches (order_id r) (map (\<lambda>kv. (Some (fst kv), snd kv)) ov)))
       df)"

definition merged :: "order list \<Rightarrow> customer list \<Rightarrow> order_item list \<Rightarrow> order_row list" where
  "merged orders customers order_items =
     merge_order_values (merge_customers orders customers) (order_values order_items)"

subsection \<open>Snapshot date and the derived columns\<close>

text \<open>\<open>snapshot_date = df['order_purchase_timestamp'].max() + pd.Timedelta(days=1)\<close>\<close>

definition snapshot_date :: "order_row list \<Rightarrow> timestamp" where
  "snapshot_date df = ts_add (series_max (map order_purchase_timestamp df)) day_ns"

text \<open>A comparison of a missing status with a string is false.\<close>

definition is_success :: "order_row \<Rightarrow> bool" where
  "is_success r = (order_status r = Some ''delivered'')"

definition is_canceled :: "order_row \<Rightarrow> bool" where
  "is_canceled r = (order_status r = Some ''canceled'')"

text \<open>\<open>delivered > estimated\<close> is \<open>estimated < delivered\<close>.\<close>

definition is_success_delay :: "order_row \<Rightarrow> bool" where
  "is_success_delay r =
     (is_success r \<and>
      ts_lt (order_estimated_delivery_date r) (order_delivered_customer_date r))"

definition is_failure_delay :: "timestamp \<Rightarrow> order_row \<Rightarrow> bool" where
  "is_failure_delay snapshot r =
     ((\<not> is_success r \<and> \<not> is_canceled r) \<and>
      ts_lt (order_estimated_delivery_date r) snapshot)"

definition is_canceled_delay :: "timestamp \<Rightarrow> order_row \<Rightarrow> bool" where
  "is_canceled_delay snapshot r =
     (is_canceled r \<and> ts_lt (order_estimated_delivery_date r) snapshot)"

definition delivery_time_success :: "order_row \<Rightarrow> int option" where
  "delivery_time_success r =
     dt_days (ts_sub (order_delivered_customer_date r) (order_purchase_timestamp r))"

definition delivery_time_failure :: "order_row \<Rightarrow> int option" where
  "delivery_time_failure r =
     dt_days (ts_sub (order_estimated_delivery_date r) (order_purchase_timestamp r))"

definition delay_duration :: "timestamp \<Rightarrow> order_row \<Rightarrow> int option" where
  "delay_duration snapshot r =
     dt_days (ts_sub snapshot (order_estimated_delivery_date r))"

text \<open>
  The three labels of \<open>categorize_delay\<close> are the strings for "1-3 days", "4-7 days" and
  "7 days or more". A missing duration reaches the function as \<open>NaN\<close>, for which each
  of the three comparisons is false, so that the last branch is taken.
\<close>

datatype intensity = Days_1_3 | Days_4_7 | Days_7_plus

definition categorize_delay :: "int option \<Rightarrow> intensity option" where
  "categorize_delay days =
     (case days of
        None \<Rightarrow> Some Days_7_plus
      | Some d \<Rightarrow>
          if d \<le> 0 then None
          else if d \<le> 3 then Some Days_1_3
          else if d \<le> 7 then Some Days_4_7
          else Some Days_7_plus)"

definition delay_intensity :: "timestamp \<Rightarrow> order_row \<Rightarrow> intensity option" where
  "delay_intensity snapshot r =
     (if is_canceled_delay snapshot r \<or> is_failure_delay snapshot r
      then categorize_delay (delay_duration snapshot r) else None)"

subsection \<open>Float cells\<close>

text \<open>
  A \<open>float64\<close> cell: a finite number, or one of \<open>inf\<close>, \<open>-inf\<close> and \<open>NaN\<close>.
\<close>

datatype pyfloat = Finite rat | PosInf | NegInf | NaN

text \<open>Rounding to the nearest integer, ties to the even one (\<open>np.rint\<close>, and the
  rounding of every \<open>float64\<close> operation).\<close>

definition round_half_even :: "rat \<Rightarrow> int" where
  "round_half_even x =
     (let f = \<lfloor>x\<rfloor>; d = x - of_int f
      in if d < 1 / 2 then f
         else if 1 / 2 < d then f + 1
         else if even f then f else f + 1)"

text \<open>
  The binade of a positive number \<open>x\<close>: the \<open>e\<close> with \<open>2 ^ e \<le> x < 2 ^ (e + 1)\<close>. The
  spacing of the \<open>float64\<close> numbers around \<open>x\<close> is \<open>2 ^ (e - 52)\<close>, and \<open>2 ^ (-1074)\<close>
  below the smallest normal number \<open>2 ^ (-1022)\<close>.
\<close>

definition ilog2 :: "rat \<Rightarrow> int" where
  "ilog2 x = (if 1 \<le> x then bitlen \<lfloor>x\<rfloor> - 1 else - bitlen (\<lceil>1 / x\<rceil> - 1))"

definition ulp :: "rat \<Rightarrow> rat" where
  "ulp x = 2 powi (max (ilog2 \<bar>x\<bar>) (- 1022) - 52)"

text \<open>The nearest number with 53 significant bits, ties to even, and the \<open>float64\<close>
  cell it gives: from \<open>2 ^ 1024\<close> on, the cell is an infinity.\<close>

definition f64_round :: "rat \<Rightarrow> rat" where
  "f64_round x =
     (if x = 0 then 0 else of_int (round_half_even (x / ulp x)) * ulp x)"

definition f64 :: "rat \<Rightarrow> pyfloat" where
  "f64 x =
     (let r = f64_round x
      in if 1024 \<le> ilog2 \<bar>r\<bar> then (if 0 < r then PosInf else NegInf) else Finite r)"

text \<open>An \<open>int64\<close> count converted to \<open>float64\<close>, as the division of two integer
  columns does first; it cannot overflow.\<close>

definition f64_of_nat :: "nat \<Rightarrow> rat" where
  "f64_of_nat n = f64_round (of_nat n)"

text \<open>Element-wise \<open>/\<close> of two finite \<open>float64\<close> cells: numpy does not raise on a zero
  divisor.\<close>

definition f64_truediv :: "rat \<Rightarrow> rat \<Rightarrow> pyfloat" where
  "f64_truediv a b =
     (if b = 0 then (if a = 0 then NaN else if 0 < a then PosInf else NegInf)
      else f64 (a / b))"

text \<open>Element-wise \<open>* 100\<close>.\<close>

definition f64_mul100 :: "pyfloat \<Rightarrow> pyfloat" where
  "f64_mul100 x = (case x of Finite q \<Rightarrow> f64 (q * 100) | PosInf \<Rightarrow> PosInf
                | NegInf \<Rightarrow> NegInf | NaN \<Rightarrow> NaN)"

text \<open>\<open>.round(2)\<close>: numpy multiplies the cell by 100, rounds the product to the
  nearest integer with \<open>rint\<close>, and divides by 100; each of the three steps is a
  \<open>float64\<close> operation.\<close>

definition np_rint :: "pyfloat \<Rightarrow> pyfloat" where
  "np_rint x = (case x of Finite q \<Rightarrow> Finite (of_int (round_half_even q))
                | PosInf \<Rightarrow> PosInf | NegInf \<Rightarrow> NegInf | NaN \<Rightarrow> NaN)"

definition f64_div100 :: "pyfloat \<Rightarrow> pyfloat" where
  "f64_div100 x = (case x of Finite q \<Rightarrow> f64 (q / 100) | PosInf \<Rightarrow> PosInf
                | NegInf \<Rightarrow> NegInf | NaN \<Rightarrow> NaN)"

definition np_round2 :: "pyfloat \<Rightarrow> pyfloat" where
  "np_round2 x = f64_div100 (np_rint (f64_mul100 x))"

text \<open>\<open>mean\<close> of a column of whole days: missing cells are skipped, the mean of no
  cell is \<open>NaN\<close>, and otherwise it is the sum divided by the number of cells.\<close>

definition series_mean :: "int option list \<Rightarrow> pyfloat" where
  "series_mean xs =
     (let ys = dropna xs
      in if ys = [] then NaN else f64 (of_int (sum_list ys) / of_nat (length ys)))"

subsection \<open>Aggregation per customer state\<close>

text \<open>
  \<open>df.groupby('customer_state')\<close>: one group per state that is not missing, in sorted
  order of the states; rows whose state is missing belong to no group. The rows of a
  group keep their order.
\<close>

definition group_keys :: "order_row list \<Rightarrow> string list" where
  "group_keys df = sort (remdups (dropna (map customer_state df)))"

definition group_rows :: "order_row list \<Rightarrow> string \<Rightarrow> order_row list" where
  "group_rows df s = filter (\<lambda>r. customer_state r = Some s) df"

text \<open>\<open>'count'\<close> counts the cells that are not missing; \<open>'sum'\<close> of a boolean column
  counts the true cells.\<close>

definition count_notna :: "'a option list \<Rightarrow> nat" where
  "count_notna xs = length (dropna xs)"

definition count_true :: "('a \<Rightarrow> bool) \<Rightarrow> 'a list \<Rightarrow> nat" where
  "count_true p g = length (filter p g)"

text \<open>The columns of \<open>region_stats\<close> after \<open>.agg(...).reset_index()\<close>; the column
  \<open>customer_state\<close> of this table is the field \<open>region\<close>.\<close>

record region_agg =
  region :: string
  total_orders :: nat
  total_order_value :: rat
  success_cnt :: nat
  canceled_cnt :: nat
  canceled_value :: rat
  success_delay_cnt :: nat
  failure_delay_cnt :: nat
  canceled_delay_cnt :: nat
  canceled_delay_value :: rat
  avg_time_success :: pyfloat
  avg_time_failure :: pyfloat
  delay_1_3 :: nat
  delay_4_7 :: nat
  delay_7_plus :: nat

text \<open>
  One row of the aggregate, from the rows \<open>g\<close> of one group. The two value lambdas
  \<open>df.loc[x.index, 'price'][df.loc[x.index, flag]].sum()\<close> select, by the row labels
  of the group, the prices of the rows of the group whose flag is true, and sum them;
  the three bucket lambdas count the rows of the group with the given label.
\<close>

definition aggregate :: "timestamp \<Rightarrow> string \<Rightarrow> order_row list \<Rightarrow> region_agg" where
  "aggregate snapshot s g =
     \<lparr> region = s,
       total_orders = count_notna (map order_id g),
       total_order_value = sum_list (map price g),
       success_cnt = count_true is_success g,
       canceled_cnt = count_true is_canceled g,
       canceled_value = sum_list (map price (filter is_canceled g)),
       success_delay_cnt = count_true is_success_delay g,
       failure_delay_cnt = count_true (is_failure_delay snapshot) g,
       canceled_delay_cnt = count_true (is_canceled_delay snapshot) g,
       canceled_delay_value = sum_list (map price (filter (is_canceled_delay snapshot) g)),
       avg_time_success = series_mean (map delivery_time_success g),
       avg_time_failure = series_mean (map delivery_time_failure g),
       delay_1_3 = count_true (\<lambda>r. delay_intensity snapshot r = Some Days_1_3) g,
       delay_4_7 = count_true (\<lambda>r. delay_intensity snapshot r = Some Days_4_7) g,
       delay_7_plus = count_true (\<lambda>r. delay_intensity snapshot r = Some Days_7_plus) g \<rparr>"

text \<open>Line 97 adds the column \<open>'Total Delay Ratio (%)'\<close>, computed from the integer
  columns of the same row.\<close>

record region_row = region_agg +
  total_delay_ratio :: pyfloat

definition add_delay_ratio :: "region_agg \<Rightarrow> region_row" where
  "add_delay_ratio a =
     region_agg.extend a
       (region_row.fields
          (np_round2 (f64_mul100 (f64_truediv
             (f64_of_nat
                (success_delay_cnt a + failure_delay_cnt a + canceled_delay_cnt a))
             (f64_of_nat (total_orders a))))))"

text \<open>\<open>region_stats\<close> as it stands after line 97 of the script, from the merged frame
  and from the three input tables. For a merged frame without rows the table has no
  rows; whether pandas gets as far as the aggregate on such a frame is not modelled.\<close>

definition region_stats_of :: "order_row list \<Rightarrow> region_row list" where
  "region_stats_of df =
     (let snapshot = snapshot_date df
      in map (\<lambda>s. add_delay_ratio (aggregate snapshot s (group_rows df s)))
           (group_keys df))"

definition region_stats :: "order list \<Rightarrow> customer list \<Rightarrow> order_item list \<Rightarrow> region_row list" where
  "region_stats orders customers order_items =
     region_stats_of (merged orders customers order_items)"

subsection \<open>Exceptions, \<open>try\<close>/\<open>except\<close> and the file system\<close>

text \<open>
  A call that can raise returns \<open>Inl\<close> of the exception or \<open>Inr\<close> of its value.
  \<open>then_do\<close> is the sequencing of two statements: an exception of the first skips
  the second. \<open>try_except body handler\<close> is \<open>try: body except: handler\<close> with a bare
  \<open>except\<close>: every exception of the body is caught and dropped, and the handler runs
  in its place, unprotected.
\<close>

datatype exn = Exception string

definition then_do :: "exn + 'a \<Rightarrow> ('a \<Rightarrow> exn + 'b) \<Rightarrow> exn + 'b" where
  "then_do m f = (case m of Inl e \<Rightarrow> Inl e | Inr v \<Rightarrow> f v)"

definition try_except :: "exn + 'a \<Rightarrow> exn + 'a \<Rightarrow> exn + 'a" where
  "try_except body handler = (case body of Inl e \<Rightarrow> handler | Inr v \<Rightarrow> Inr v)"

text \<open>
  The files beside the script: what each of the six read calls returns, or raises,
  when it is made. The tables are taken with their columns typed; for the three date
  columns \<open>pd.to_datetime\<close> then changes nothing.
\<close>

record files =
  orders_parquet :: "exn + order list"
  customers_parquet :: "exn + customer list"
  order_items_parquet :: "exn + order_item list"
  orders_csv :: "exn + order list"
  customers_csv :: "exn + customer list"
  order_items_csv :: "exn + order_item list"

type_synonym datasets = "order list \<times> customer list \<times> order_item list"

definition read_all_parquet :: "files \<Rightarrow> exn + datasets" where
  "read_all_parquet fs =
     then_do (orders_parquet fs) (\<lambda>orders.
     then_do (customers_parquet fs) (\<lambda>customers.
     then_do (order_items_parquet fs) (\<lambda>order_items.
     Inr (orders, customers, order_items))))"

definition read_all_csv :: "files \<Rightarrow> exn + datasets" where
  "read_all_csv fs =
     then_do (orders_csv fs) (\<lambda>orders.
     then_do (customers_csv fs) (\<lambda>customers.
     then_do (order_items_csv fs) (\<lambda>order_items.
     Inr (orders, customers, order_items))))"

text \<open>Lines 26 to 33 of \<open>load_and_process_data\<close>.\<close>

definition load_datasets :: "files \<Rightarrow> exn + datasets" where
  "load_datasets fs = try_except (read_all_parquet fs) (read_all_csv fs)"


subsection \<open>The revenue-loss column\<close>

text \<open>
  Line 98 divides the column \<open>canceled_delay_value\<close> by the column
  \<open>total_order_value\<close>, without looking at the divisor first. Both columns come from
  the price column. That column is \<open>float64\<close> when the item table has rows, and for
  every parquet file; a CSV file without rows gives it the dtype \<open>object\<close>, and,
  unless the pandas at hand turns it into an integer column in \<open>fillna\<close>, its cells
  are then Python numbers. Dividing by a zero cell gives \<open>NaN\<close> or an infinity in a
  \<open>float64\<close> or integer column and raises \<open>ZeroDivisionError\<close> between Python numbers.
  What the division does on a zero divisor is therefore a parameter, applied to the
  dividend; the two behaviours are given below. An exception in one cell is the
  outcome of the whole line.
\<close>

type_synonym zero_division = "rat \<Rightarrow> exn + pyfloat"

definition float64_zero_division :: zero_division where
  "float64_zero_division a =
     Inr (if a = 0 then NaN else if 0 < a then PosInf else NegInf)"

definition object_zero_division :: zero_division where
  "object_zero_division a = Inl (Exception ''ZeroDivisionError'')"

definition price_truediv :: "zero_division \<Rightarrow> rat \<Rightarrow> rat \<Rightarrow> exn + pyfloat" where
  "price_truediv zd a b = (if b = 0 then zd a else Inr (f64 (a / b)))"

record region_loss = region_row +
  revenue_loss_ratio :: pyfloat

definition add_loss_ratio :: "zero_division \<Rightarrow> region_row \<Rightarrow> exn + region_loss" where
  "add_loss_ratio zd r =
     then_do (price_truediv zd (canceled_delay_value r) (total_order_value r)) (\<lambda>q.
     Inr (region_row.extend r (region_loss.fields (np_round2 (f64_mul100 q)))))"

text \<open>The outcomes of a list of steps: the values of all of them, or the first
  exception.\<close>

fun collect :: "(exn + 'a) list \<Rightarrow> exn + 'a list" where
  "collect [] = Inr []"
| "collect (m # ms) = then_do m (\<lambda>v. then_do (collect ms) (\<lambda>vs. Inr (v # vs)))"

definition add_revenue_loss :: "zero_division \<Rightarrow> region_row list \<Rightarrow> exn + region_loss list" where
  "add_revenue_loss zd rs = collect (map (add_loss_ratio zd) rs)"

subsection \<open>The segment columns and the whole of \<open>load_and_process_data\<close>\<close>

text \<open>
  The last two statements add the columns \<open>'Delay Segment'\<close> and
  \<open>'Order Volume Segment'\<close> with \<open>pd.qcut(column, q=3, labels=...)\<close>, the three labels
  meaning low, middle and high. \<open>pd.qcut\<close> is a function of pandas, taken here as a
  parameter: from the column it either raises (when the tercile edges are not
  distinct) or yields the binning, which gives each cell its label, or no label.
\<close>

datatype segment = Low | Middle | High

type_synonym qcut = "pyfloat list \<Rightarrow> exn + (pyfloat \<Rightarrow> segment option)"

record region_seg = region_loss +
  delay_segment :: "segment option"
  order_volume_segment :: "segment option"

definition add_segments :: "qcut \<Rightarrow> region_loss list \<Rightarrow> exn + region_seg list" where
  "add_segments qc rs =
     then_do (qc (map total_delay_ratio rs)) (\<lambda>delay_bins.
     then_do (qc (map (\<lambda>r. Finite (f64_of_nat (total_orders r))) rs)) (\<lambda>volume_bins.
     Inr (map (\<lambda>r. region_loss.extend r
                 (region_seg.fields (delay_bins (total_delay_ratio r))
                    (volume_bins (Finite (f64_of_nat (total_orders r))))))
            rs)))"

text \<open>The function body. The decorator \<open>@st.cache_data\<close> is not part of the model.\<close>

definition load_and_process_data :: "zero_division \<Rightarrow> qcut \<Rightarrow> files \<Rightarrow> exn + region_seg list" where
  "load_and_process_data zd qc fs =
     then_do (load_datasets fs) (\<lambda>(orders, customers, order_items).
     then_do (add_revenue_loss zd (region_stats orders customers order_items)) (\<lambda>rs.
       add_segments qc rs))"

subsection \<open>\<open>get_brazil_geojson\<close>\<close>

text \<open>
  A decoded JSON document as the Python value that \<open>response.json()\<close> builds: the
  JSON \<open>null\<close> is Python's \<open>None\<close>, the value that the \<open>except\<close> branch returns.
  \<open>requests.get(url)\<close> and \<open>response.json()\<close> belong to the network and to the
  \<open>requests\<close> library: the outcome of the first and the decoder are parameters.
\<close>

datatype json =
  JNone
  | JBool bool
  | JNumber rat
  | JString string
  | JArray "json list"
  | JObject "(string \<times> json) list"

definition get_brazil_geojson :: "exn + 'resp \<Rightarrow> ('resp \<Rightarrow> exn + json) \<Rightarrow> exn + json" where
  "get_brazil_geojson requests_get response_json =
     try_except (then_do requests_get (\<lambda>response. response_json response)) (Inr JNone)"

subsection \<open>The state filter of \<open>main\<close>\<close>

text \<open>Lines 123 to 126: \<open>selected_states\<close> is the list that the multiselect returns,
  and an empty list is false in Python.\<close>

definition filtered_data :: "string list \<Rightarrow> region_seg list \<Rightarrow> region_seg list" where
  "filtered_data selected_states data =
     (if selected_states = [] then data
      else filter (\<lambda>r. region r \<in> set selected_states) data)"

subsection \<open>A small data set\<close>

text \<open>
  Three orders of two states, used to run the definitions. Order \<open>o1\<close> was delivered
  two days late, \<open>o2\<close> was canceled and is six days past its estimate at the snapshot,
  \<open>o3\<close> is still open, half a day past its estimate, and has no items.
\<close>

definition ex_orders :: "order list" where
  "ex_orders =
     [\<lparr> order_id = Some ''o1'', customer_id = Some ''c1'',
        order_status = Some ''delivered'',
        order_purchase_timestamp = Some 0,
        order_delivered_customer_date = Some (10 * 86400000000000),
        order_estimated_delivery_date = Some (8 * 86400000000000) \<rparr>,
      \<lparr> order_id = Some ''o2'', customer_id = Some ''c2'',
        order_status = Some ''canceled'',
        order_purchase_timestamp = Some (20 * 86400000000000),
        order_delivered_customer_date = None,
        order_estimated_delivery_date = Some (15 * 86400000000000) \<rparr>,
      \<lparr> order_id = Some ''o3'', customer_id = Some ''c3'',
        order_status = Some ''shipped'',
        order_purchase_timestamp = Some (12 * 86400000000000),
        order_delivered_customer_date = None,
        order_estimated_delivery_date = Some (41 * 43200000000000) \<rparr>]"

definition ex_customers :: "customer list" where
  "ex_customers =
     [\<lparr> cust_customer_id = Some ''c1'', cust_customer_state = Some ''SP'' \<rparr>,
      \<lparr> cust_customer_id = Some ''c2'', cust_customer_state = Some ''SP'' \<rparr>,
      \<lparr> cust_customer_id = Some ''c3'', cust_customer_state = Some ''RJ'' \<rparr>]"

definition ex_items :: "order_item list" where
  "ex_items =
     [\<lparr> item_order_id = Some ''o1'', item_price = Some 100 \<rparr>,
      \<lparr> item_order_id = Some ''o1'', item_price = Some 50 \<rparr>,
      \<lparr> item_order_id = Some ''o2'', item_price = Some 30 \<rparr>]"

text \<open>The same orders where two of them have lost their \<open>order_id\<close> cell.\<close>

definition ex_anonymous_orders :: "order list" where
  "ex_anonymous_orders =
     [\<lparr> order_id = None, customer_id = Some ''c1'',
        order_status = Some ''canceled'',
        order_purchase_timestamp = Some (20 * 86400000000000),
        order_delivered_customer_date = None,
        order_estimated_delivery_date = Some (15 * 86400000000000) \<rparr>,
      \<lparr> order_id = Some ''o1'', customer_id = Some ''c2'',
        order_status = Some ''delivered'',
        order_purchase_timestamp = Some 0,
        order_delivered_customer_date = Some (10 * 86400000000000),
        order_estimated_delivery_date = Some (8 * 86400000000000) \<rparr>,
      \<lparr> order_id = None, customer_id = Some ''c3'',
        order_status = Some ''shipped'',
        order_purchase_timestamp = Some (12 * 86400000000000),
        order_delivered_customer_date = None,
        order_estimated_delivery_date = Some (18 * 86400000000000) \<rparr>]"

text \<open>Three file systems: one where the parquet file of the orders cannot be read
  and the CSV files can, one where the parquet files can be read, and one where no
  file can be read.\<close>

definition ex_files :: files where
  "ex_files =
     \<lparr> orders_parquet = Inl (Exception ''olist_orders_dataset.parquet''),
       customers_parquet = Inr [],
       order_items_parquet = Inr [],
       orders_csv = Inr ex_orders,
       customers_csv = Inr ex_customers,
       order_items_csv = Inr ex_items \<rparr>"

definition ex_parquet_files :: files where
  "ex_parquet_files =
     \<lparr> orders_parquet = Inr ex_orders,
       customers_parquet = Inr ex_customers,
       order_items_parquet = Inr ex_items,
       orders_csv = Inl (Exception ''olist_orders_dataset.csv''),
       customers_csv = Inr [],
       order_items_csv = Inr [] \<rparr>"

definition ex_no_files :: files where
  "ex_no_files =
     \<lparr> orders_parquet = Inl (Exception ''olist_orders_dataset.parquet''),
       customers_parquet = Inl (Exception ''olist_customers_dataset.parquet''),
       order_items_parquet = Inl (Exception ''olist_order_items_dataset.parquet''),
       orders_csv = Inl (Exception ''olist_orders_dataset.csv''),
       customers_csv = Inl (Exception ''olist_customers_dataset.csv''),
       order_items_csv = Inl (Exception ''olist_order_items_dataset.csv'') \<rparr>"

text \<open>The table of the small data set after line 98, with \<open>float64\<close> price
  columns, and as \<open>main\<close> receives it, the two segment columns holding no label.\<close>

definition ex_loss :: "region_loss list" where
  "ex_loss =
     (case add_revenue_loss float64_zero_division
             (region_stats ex_orders ex_customers ex_items) of
        Inl e \<Rightarrow> []
      | Inr rs \<Rightarrow> rs)"

definition ex_data :: "region_seg list" where
  "ex_data = map (\<lambda>r. region_loss.extend r (region_seg.fields None None)) ex_loss"

section \<open>Properties\<close>

lemma series_max_None: "series_max ts = None \<longleftrightarrow> dropna ts = []"
  by (induction ts rule: series_max.induct) (auto split: option.splits)

lemma series_max_Some:
  "series_max ts = Some m \<longleftrightarrow> dropna ts \<noteq> [] \<and> m = Max (set (dropna ts))"
proof (induction ts arbitrary: m rule: series_max.induct)
  case 1
  show ?case by simp
next
  case (2 ts)
  then show ?case by simp
next
  case (3 t ts)
  show ?case
  proof (cases "series_max ts")
    case None
    then have "dropna ts = []" by (simp add: series_max_None)
    with None show ?thesis by auto
  next
    case (Some k)
    with "3.IH" have ne: "dropna ts \<noteq> []" and k: "k = Max (set (dropna ts))"
      by auto
    from ne have "Max (insert t (set (dropna ts))) = max t (Max (set (dropna ts)))"
      by simp
    with Some k show ?thesis by auto
  qed
qed

subsection \<open>The merges and the snapshot date\<close>

lemma set_dropna: "set (dropna xs) = {x. Some x \<in> set xs}"
  by (induction xs rule: dropna.induct) auto

lemma left_matches_nonempty: "left_matches k right \<noteq> []"
  by (simp add: left_matches_def Let_def)

lemma order_fields_extend [simp]:
  "order_id (order.extend ord x) = order_id ord"
  "customer_id (order.extend ord x) = customer_id ord"
  "order_status (order.extend ord x) = order_status ord"
  "order_purchase_timestamp (order.extend ord x) = order_purchase_timestamp ord"
  "order_delivered_customer_date (order.extend ord x) = order_delivered_customer_date ord"
  "order_estimated_delivery_date (order.extend ord x) = order_estimated_delivery_date ord"
  by (simp_all add: order.defs)

lemma order_cust_fields_extend [simp]:
  "order_id (order_cust.extend r x) = order_id r"
  "customer_id (order_cust.extend r x) = customer_id r"
  "order_status (order_cust.extend r x) = order_status r"
  "order_purchase_timestamp (order_cust.extend r x) = order_purchase_timestamp r"
  "order_delivered_customer_date (order_cust.extend r x) = order_delivered_customer_date r"
  "order_estimated_delivery_date (order_cust.extend r x) = order_estimated_delivery_date r"
  "customer_state (order_cust.extend r x) = customer_state r"
  "price (order_cust.extend r (order_row.fields p)) = p"
  by (simp_all add: order_cust.defs order_row.defs)

lemma set_map_concat_extend:
  assumes "\<And>x. L x \<noteq> []" and "\<And>x m. f (ext x m) = g x"
  shows "set (map f (concat (map (\<lambda>x. map (ext x) (L x)) xs))) = set (map g xs)"
proof -
  have "f ` ext x ` set (L x) = {g x}" for x
    using assms(1) [of x] assms(2) by (cases "L x") (auto simp: image_image)
  then show ?thesis by (auto simp: image_image image_UN)
qed

lemma merge_customers_purchase:
  "set (map order_purchase_timestamp (merge_customers orders customers)) =
   set (map order_purchase_timestamp orders)"
  unfolding merge_customers_def
  by (rule set_map_concat_extend) (simp_all add: left_matches_nonempty)

lemma merge_order_values_purchase:
  "set (map order_purchase_timestamp (merge_order_values df ov)) =
   set (map order_purchase_timestamp df)"
  unfolding merge_order_values_def
  by (rule set_map_concat_extend) (simp_all add: left_matches_nonempty)

lemma merged_purchase:
  "set (map order_purchase_timestamp (merged orders customers order_items)) =
   set (map order_purchase_timestamp orders)"
  by (simp only: merged_def merge_order_values_purchase merge_customers_purchase)

lemma series_max_eq:
  "series_max ts =
     (if set (dropna ts) = {} then None else Some (Max (set (dropna ts))))"
  by (cases "series_max ts") (auto simp: series_max_None series_max_Some)

lemma series_max_cong: "set xs = set ys \<Longrightarrow> series_max xs = series_max ys"
  by (simp add: series_max_eq set_dropna)

lemma snapshot_date_merged:
  "snapshot_date (merged orders customers order_items) =
     (if set (dropna (map order_purchase_timestamp orders)) = {} then None
      else Some (Max (set (dropna (map order_purchase_timestamp orders))) + day_ns))"
proof -
  have "series_max (map order_purchase_timestamp (merged orders customers order_items)) =
        series_max (map order_purchase_timestamp orders)"
    by (rule series_max_cong) (rule merged_purchase)
  then show ?thesis
    by (simp add: snapshot_date_def ts_add_def series_max_eq)
qed

subsection \<open>Prices and the rows of the aggregate\<close>





lemma region_add_delay_ratio [simp]:
  "region (add_delay_ratio a) = region a"
  "total_orders (add_delay_ratio a) = total_orders a"
  "total_order_value (add_delay_ratio a) = total_order_value a"
  "success_cnt (add_delay_ratio a) = success_cnt a"
  "canceled_cnt (add_delay_ratio a) = canceled_cnt a"
  "canceled_value (add_delay_ratio a) = canceled_value a"
  "success_delay_cnt (add_delay_ratio a) = success_delay_cnt a"
  "failure_delay_cnt (add_delay_ratio a) = failure_delay_cnt a"
  "canceled_delay_cnt (add_delay_ratio a) = canceled_delay_cnt a"
  "canceled_delay_value (add_delay_ratio a) = canceled_delay_value a"
  "delay_1_3 (add_delay_ratio a) = delay_1_3 a"
  "delay_4_7 (add_delay_ratio a) = delay_4_7 a"
  "delay_7_plus (add_delay_ratio a) = delay_7_plus a"
  by (simp_all add: add_delay_ratio_def region_agg.defs)

lemma ratio_add_delay_ratio:
  "total_delay_ratio (add_delay_ratio a) =
     np_round2 (f64_mul100 (f64_truediv
       (f64_of_nat (success_delay_cnt a + failure_delay_cnt a + canceled_delay_cnt a))
       (f64_of_nat (total_orders a))))"
  by (simp add: add_delay_ratio_def region_agg.defs region_row.defs)

lemma set_group_keys: "set (group_keys df) = {s. Some s \<in> set (map customer_state df)}"
  by (simp add: group_keys_def set_dropna)


text \<open>Every row of the table is the aggregate of the group of its own state.\<close>

lemma region_stats_of_row:
  assumes "row \<in> set (region_stats_of df)"
  shows "Some (region row) \<in> set (map customer_state df) \<and>
         row = add_delay_ratio (aggregate (snapshot_date df) (region row)
                 (group_rows df (region row)))"
  using assms by (auto simp: region_stats_of_def Let_def set_group_keys aggregate_def)



subsection \<open>Rounding to float64\<close>

lemma round_half_even_cases:
  "(round_half_even x = \<lfloor>x\<rfloor> \<and> x - of_int \<lfloor>x\<rfloor> \<le> 1 / 2) \<or>
   (round_half_even x = \<lfloor>x\<rfloor> + 1 \<and> 1 / 2 \<le> x - of_int \<lfloor>x\<rfloor>)"
  by (auto simp: round_half_even_def Let_def)

lemma round_half_even_near: "\<bar>of_int (round_half_even x) - x\<bar> \<le> 1 / 2"
proof -
  have "of_int \<lfloor>x\<rfloor> \<le> x" and "x < of_int \<lfloor>x\<rfloor> + 1" by linarith+
  with round_half_even_cases [of x] show ?thesis by auto
qed

lemma round_half_even_le: "x \<le> of_int n \<Longrightarrow> round_half_even x \<le> n"
proof -
  assume le: "x \<le> of_int n"
  have fl: "of_int \<lfloor>x\<rfloor> \<le> x" by linarith
  from le have "\<lfloor>x\<rfloor> \<le> n" by (simp add: floor_le_iff)
  moreover have "x - of_int \<lfloor>x\<rfloor> = 0" if "\<lfloor>x\<rfloor> = n"
    using that le fl by simp
  ultimately show ?thesis
    using round_half_even_cases [of x] by (cases "\<lfloor>x\<rfloor> = n") auto
qed

lemma round_half_even_ge: "of_int n \<le> x \<Longrightarrow> n \<le> round_half_even x"
proof -
  assume "of_int n \<le> x"
  then have "n \<le> \<lfloor>x\<rfloor>" by (simp add: le_floor_iff)
  with round_half_even_cases [of x] show ?thesis by auto
qed

lemma round_half_even_of_int: "round_half_even (of_int k) = k"
  using round_half_even_le [of "of_int k" k] round_half_even_ge [of k "of_int k"] by simp

lemma round_half_even_mono:
  assumes "x \<le> y"
  shows "round_half_even x \<le> round_half_even y"
proof (rule ccontr)
  assume "\<not> round_half_even x \<le> round_half_even y"
  then have "round_half_even y + 1 \<le> round_half_even x" by simp
  then have gap: "(of_int (round_half_even y) :: rat) + 1 \<le> of_int (round_half_even x)"
    by (metis of_int_1 of_int_add of_int_le_iff)
  from round_half_even_near [of x] round_half_even_near [of y] gap assms
  have "x = y" by linarith
  with \<open>\<not> round_half_even x \<le> round_half_even y\<close> show False by simp
qed

text \<open>The binade of a positive number.\<close>

lemma ilog2_bounds:
  assumes "0 < x"
  shows "2 powi ilog2 x \<le> x \<and> x < 2 powi (ilog2 x + 1)"
proof (cases "1 \<le> x")
  case True
  let ?m = "\<lfloor>x\<rfloor>"
  from True have m: "0 < ?m" by simp
  from bitlen_bounds [OF m]
  have lo: "2 ^ nat (bitlen ?m - 1) \<le> ?m" and hi: "?m < 2 ^ nat (bitlen ?m)" by simp_all
  from m have b1: "1 \<le> bitlen ?m"
    using bitlen_eq_zero_iff [of ?m] bitlen_nonneg [of ?m] by linarith
  have "(2::rat) powi (bitlen ?m - 1) = of_int (2 ^ nat (bitlen ?m - 1))"
    using b1 by (simp add: power_int_def)
  also have "\<dots> \<le> of_int ?m" using lo by (simp only: of_int_le_iff)
  also have "\<dots> \<le> x" by simp
  finally have A: "2 powi (bitlen ?m - 1) \<le> x" .
  from hi have "?m + 1 \<le> 2 ^ nat (bitlen ?m)" by simp
  then have "(of_int (?m + 1) :: rat) \<le> of_int (2 ^ nat (bitlen ?m))"
    by (simp only: of_int_le_iff)
  moreover have "x < of_int (?m + 1)" by linarith
  moreover have "(2::rat) powi (bitlen ?m) = of_int (2 ^ nat (bitlen ?m))"
    using b1 by (simp add: power_int_def)
  ultimately have B: "x < 2 powi (bitlen ?m)" by simp
  from A B True show ?thesis by (simp add: ilog2_def)
next
  case False
  let ?y = "1 / x"
  let ?c = "\<lceil>?y\<rceil>"
  let ?L = "bitlen (?c - 1)"
  from False assms have y1: "1 < ?y" by simp
  then have c2: "2 \<le> ?c" by (simp add: le_ceiling_iff)
  then have c1: "0 < ?c - 1" by simp
  from bitlen_bounds [OF c1]
  have lo: "2 ^ nat (?L - 1) \<le> ?c - 1" and hi: "?c - 1 < 2 ^ nat ?L" by simp_all
  from c1 have L1: "1 \<le> ?L"
    using bitlen_eq_zero_iff [of "?c - 1"] bitlen_nonneg [of "?c - 1"] by linarith
  have ycl: "of_int (?c - 1) < ?y" and ycu: "?y \<le> of_int ?c" by linarith+
  from hi have "?c \<le> 2 ^ nat ?L" by simp
  then have "(of_int ?c :: rat) \<le> of_int (2 ^ nat ?L)" by (simp only: of_int_le_iff)
  moreover have "(of_int (2 ^ nat ?L) :: rat) = 2 ^ nat ?L" by simp
  ultimately have yle: "?y \<le> 2 ^ nat ?L" using ycu by linarith
  from lo have "(of_int (2 ^ nat (?L - 1)) :: rat) \<le> of_int (?c - 1)"
    by (simp only: of_int_le_iff)
  moreover have "(of_int (2 ^ nat (?L - 1)) :: rat) = 2 ^ nat (?L - 1)" by simp
  ultimately have ygt: "2 ^ nat (?L - 1) < ?y" using ycl by linarith
  have pL: "(2::rat) powi (- ?L) = 1 / 2 ^ nat ?L"
    using L1 by (simp add: power_int_def field_simps)
  have pL1: "(2::rat) powi (- ?L + 1) = 1 / 2 ^ nat (?L - 1)"
  proof (cases "?L = 1")
    case True
    then show ?thesis by simp
  next
    case False
    with L1 have "- ?L + 1 < 0" by simp
    moreover have "nat (?L - 1) = nat (- (- ?L + 1))" by simp
    ultimately show ?thesis by (simp add: power_int_def field_simps)
  qed
  from yle assms have A: "1 / 2 ^ nat ?L \<le> x"
    by (simp add: field_simps)
  from ygt assms have B: "x < 1 / 2 ^ nat (?L - 1)"
    by (simp add: field_simps)
  from False have il: "ilog2 x = - ?L" by (simp add: ilog2_def)
  from A have "2 powi ilog2 x \<le> x" by (simp only: il pL)
  moreover from B have "x < 2 powi (ilog2 x + 1)" by (simp only: il pL1)
  ultimately show ?thesis by (rule conjI)
qed

lemma ilog2_less:
  assumes "0 < x" and "x < 2 powi m"
  shows "ilog2 x < m"
proof (rule ccontr)
  assume "\<not> ilog2 x < m"
  then have "m \<le> ilog2 x" by simp
  then have "(2::rat) powi m \<le> 2 powi ilog2 x" by (intro power_int_increasing) simp_all
  with ilog2_bounds [OF assms(1)] assms(2) show False by linarith
qed

lemma ilog2_le:
  assumes "0 < x" and "x \<le> 2 powi m"
  shows "ilog2 x \<le> m"
proof -
  have "(2::rat) powi m < 2 powi (m + 1)" by (intro power_int_strict_increasing) simp_all
  with assms(2) have "x < 2 powi (m + 1)" by simp
  from ilog2_less [OF assms(1) this] show ?thesis by simp
qed

lemma ilog2_mono:
  assumes "0 < x" and "x \<le> y"
  shows "ilog2 x \<le> ilog2 y"
proof -
  from assms have y: "0 < y" by simp
  from ilog2_bounds [OF y] assms(2) have "x < 2 powi (ilog2 y + 1)" by simp
  from ilog2_less [OF assms(1) this] show ?thesis by simp
qed

lemma ilog2_zero: "ilog2 0 = 0"
  by (simp add: ilog2_def bitlen_eq_zero_iff)

text \<open>A power of two is a whole multiple of every smaller power of two.\<close>

lemma pow2_multiple:
  assumes "b \<le> a"
  shows "(2::rat) powi a = of_int (2 ^ nat (a - b)) * 2 powi b"
proof -
  have "(2::rat) powi a = 2 powi ((a - b) + b)" by simp
  also have "\<dots> = 2 powi (a - b) * 2 powi b" by (rule power_int_add) simp
  also have "(2::rat) powi (a - b) = of_int (2 ^ nat (a - b))"
    using assms by (simp add: power_int_def)
  finally show ?thesis .
qed

lemma ulp_pos: "0 < ulp x"
  by (simp add: ulp_def)

text \<open>Rounding on a grid never crosses a point of the grid.\<close>

lemma grid_round_le:
  assumes "0 < u" and "x \<le> of_int m * u"
  shows "of_int (round_half_even (x / u)) * u \<le> of_int m * u"
proof -
  from assms have "x / u \<le> of_int m" by (simp add: field_simps)
  then have "round_half_even (x / u) \<le> m" by (rule round_half_even_le)
  then have "(of_int (round_half_even (x / u)) :: rat) \<le> of_int m" by (simp only: of_int_le_iff)
  with assms(1) show ?thesis by (simp add: mult_right_mono)
qed

lemma grid_round_ge:
  assumes "0 < u" and "of_int m * u \<le> x"
  shows "of_int m * u \<le> of_int (round_half_even (x / u)) * u"
proof -
  from assms have "of_int m \<le> x / u" by (simp add: field_simps)
  then have "m \<le> round_half_even (x / u)" by (rule round_half_even_ge)
  then have "(of_int m :: rat) \<le> of_int (round_half_even (x / u))" by (simp only: of_int_le_iff)
  with assms(1) show ?thesis by (simp add: mult_right_mono)
qed

lemma f64_round_nonneg: "0 \<le> x \<Longrightarrow> 0 \<le> f64_round x"
proof -
  assume x: "0 \<le> x"
  have "of_int 0 * ulp x \<le> of_int (round_half_even (x / ulp x)) * ulp x"
    by (rule grid_round_ge [OF ulp_pos]) (use x in simp)
  then show ?thesis by (simp add: f64_round_def)
qed

text \<open>A bound that is a power of two is kept by the rounding.\<close>

lemma f64_round_le_pow2:
  assumes "0 \<le> x" and "x \<le> 2 powi m" and "- 1074 \<le> m"
  shows "f64_round x \<le> 2 powi m"
proof (cases "x = 0")
  case True
  then show ?thesis by (simp add: f64_round_def)
next
  case False
  with assms(1) have pos: "0 < x" by simp
  let ?e = "max (ilog2 \<bar>x\<bar>) (- 1022)"
  from pos assms(2) have "ilog2 \<bar>x\<bar> \<le> m" by (simp add: ilog2_le)
  with assms(3) have "?e - 52 \<le> m" by simp
  from pow2_multiple [OF this]
  have "(2::rat) powi m = of_int (2 ^ nat (m - (?e - 52))) * ulp x"
    by (simp only: ulp_def)
  with grid_round_le [where u = "ulp x" and x = x and m = "2 ^ nat (m - (?e - 52))",
      OF ulp_pos] assms(2) False
  show ?thesis by (simp add: f64_round_def)
qed

text \<open>A whole number below \<open>2 ^ 53\<close> is a float64; a bound that is such a number is
  kept by the rounding.\<close>

lemma nat_on_grid:
  assumes "0 < x" and "x \<le> of_nat N" and "N < 2 ^ 53"
  shows "\<exists>k::int. (of_nat N :: rat) = of_int k * ulp x"
proof -
  let ?e = "max (ilog2 \<bar>x\<bar>) (- 1022)"
  have "(of_nat N :: rat) < 2 powi 53"
  proof -
    from assms(3) have "(of_nat N :: rat) < of_nat (2 ^ 53)" by (simp only: of_nat_less_iff)
    then show ?thesis by simp
  qed
  with assms(2) have "x < 2 powi 53" by simp
  with assms(1) have "ilog2 \<bar>x\<bar> < 53" by (simp add: ilog2_less)
  then have e: "?e - 52 \<le> 0" by simp
  from pow2_multiple [OF e] have "1 = of_int (2 ^ nat (0 - (?e - 52))) * ulp x"
    by (simp only: ulp_def power_int_0_right)
  then have "(of_nat N :: rat) = of_nat N * (of_int (2 ^ nat (0 - (?e - 52))) * ulp x)"
    by simp
  also have "\<dots> = of_int (int N * 2 ^ nat (0 - (?e - 52))) * ulp x"
    by simp
  finally show ?thesis by blast
qed

lemma f64_round_le_nat:
  assumes "0 \<le> x" and "x \<le> of_nat N" and "N < 2 ^ 53"
  shows "f64_round x \<le> of_nat N"
proof (cases "x = 0")
  case True
  then show ?thesis by (simp add: f64_round_def)
next
  case False
  with assms(1) have pos: "0 < x" by simp
  from nat_on_grid [OF pos assms(2,3)] obtain k :: int
    where k: "(of_nat N :: rat) = of_int k * ulp x" by blast
  from grid_round_le [where u = "ulp x" and x = x and m = k, OF ulp_pos] assms(2) k False
  show ?thesis by (simp add: f64_round_def)
qed

lemma f64_round_of_nat:
  assumes "N < 2 ^ 53"
  shows "f64_round (of_nat N) = of_nat N"
proof (cases "N = 0")
  case True
  then show ?thesis by (simp add: f64_round_def)
next
  case False
  then have pos: "(0::rat) < of_nat N" by simp
  from nat_on_grid [OF pos order_refl assms] obtain k :: int
    where k: "(of_nat N :: rat) = of_int k * ulp (of_nat N)" by blast
  have nz: "ulp (of_nat N) \<noteq> 0" using ulp_pos [of "of_nat N"] by simp
  from k nz have "(of_nat N :: rat) / ulp (of_nat N) = of_int k" by (simp add: field_simps)
  then have "round_half_even (of_nat N / ulp (of_nat N)) = k"
    by (simp only: round_half_even_of_int)
  with k False show ?thesis by (simp add: f64_round_def)
qed

text \<open>The rounding is monotone on the numbers that are not negative.\<close>

lemma f64_round_mono:
  assumes "0 \<le> x" and "x \<le> y"
  shows "f64_round x \<le> f64_round y"
proof (cases "x = 0")
  case True
  with assms show ?thesis using f64_round_nonneg [of y] by (simp add: f64_round_def)
next
  case False
  with assms have x: "0 < x" and y: "0 < y" by simp_all
  let ?ex = "max (ilog2 \<bar>x\<bar>) (- 1022)"
  let ?ey = "max (ilog2 \<bar>y\<bar>) (- 1022)"
  from ilog2_mono [OF x assms(2)] x y have le: "?ex \<le> ?ey" by simp
  show ?thesis
  proof (cases "?ex = ?ey")
    case True
    then have u: "ulp x = ulp y" by (simp only: ulp_def)
    from assms(2) ulp_pos [of y] have "x / ulp y \<le> y / ulp y"
      by (simp add: divide_right_mono)
    then have "round_half_even (x / ulp y) \<le> round_half_even (y / ulp y)"
      by (rule round_half_even_mono)
    then have "(of_int (round_half_even (x / ulp y)) :: rat)
        \<le> of_int (round_half_even (y / ulp y))"
      by (simp only: of_int_le_iff)
    with ulp_pos [of y] x y show ?thesis
      by (simp add: f64_round_def u mult_right_mono)
  next
    case False
    with le have lt: "?ex < ?ey" by linarith
    then have "?ey = ilog2 \<bar>y\<bar>" by linarith
    with y have ey: "?ey = ilog2 y" by simp
    let ?B = "(2::rat) powi ?ey"
    from ilog2_bounds [OF y] ey have By: "?B \<le> y" by simp
    have "x < 2 powi (ilog2 x + 1)" using ilog2_bounds [OF x] by simp
    also have "\<dots> \<le> ?B" using lt x by (intro power_int_increasing) simp_all
    finally have xB: "x \<le> ?B" by simp
    have gx: "?B = of_int (2 ^ nat (?ey - (?ex - 52))) * ulp x"
      unfolding ulp_def by (rule pow2_multiple) (use lt in linarith)
    have gy: "?B = of_int (2 ^ nat (?ey - (?ey - 52))) * ulp y"
      unfolding ulp_def by (rule pow2_multiple) simp
    from grid_round_le [where u = "ulp x" and x = x and m = "2 ^ nat (?ey - (?ex - 52))",
        OF ulp_pos] xB gx x
    have "f64_round x \<le> ?B" by (simp add: f64_round_def)
    moreover
    from grid_round_ge [where u = "ulp y" and x = y and m = "2 ^ nat (?ey - (?ey - 52))",
        OF ulp_pos] By gy y
    have "?B \<le> f64_round y" by (simp add: f64_round_def)
    ultimately show ?thesis by simp
  qed
qed

text \<open>The error of one rounding, for a number of bounded size.\<close>

lemma f64_round_error:
  assumes "0 \<le> x" and "x \<le> 2 powi m" and "- 1022 \<le> m"
  shows "\<bar>f64_round x - x\<bar> \<le> 2 powi (m - 53)"
proof (cases "x = 0")
  case True
  then show ?thesis by (simp add: f64_round_def)
next
  case False
  with assms(1) have pos: "0 < x" by simp
  let ?e = "max (ilog2 \<bar>x\<bar>) (- 1022)"
  from pos assms(2) have "ilog2 \<bar>x\<bar> \<le> m" by (simp add: ilog2_le)
  with assms(3) have "?e - 52 \<le> m - 52" by simp
  then have "ulp x \<le> 2 powi (m - 52)"
    unfolding ulp_def by (intro power_int_increasing) simp_all
  moreover have "(2::rat) powi (m - 52) = 2 * 2 powi (m - 53)"
    using power_int_add [of "2::rat" 1 "m - 53"] by simp
  ultimately have u: "ulp x / 2 \<le> 2 powi (m - 53)" by simp
  have "\<bar>of_int (round_half_even (x / ulp x)) * ulp x - x\<bar> =
        \<bar>of_int (round_half_even (x / ulp x)) - x / ulp x\<bar> * ulp x"
    using ulp_pos [of x] by (simp add: abs_mult_pos [symmetric] field_simps)
  also have "\<dots> \<le> 1 / 2 * ulp x"
    using round_half_even_near [of "x / ulp x"] ulp_pos [of x]
    by (intro mult_right_mono) simp_all
  finally show ?thesis using u False by (simp add: f64_round_def)
qed

text \<open>Below the overflow threshold the float64 nearest to a number is finite.\<close>

lemma f64_finite:
  assumes "\<bar>f64_round x\<bar> < 2 powi 1024"
  shows "f64 x = Finite (f64_round x)"
proof (cases "f64_round x = 0")
  case True
  then show ?thesis by (simp add: f64_def ilog2_zero)
next
  case False
  then have "0 < \<bar>f64_round x\<bar>" by simp
  from ilog2_less [OF this assms] show ?thesis by (simp add: f64_def)
qed

lemma f64_finite_nat:
  assumes "0 \<le> x" and "x \<le> of_nat N" and "N < 2 ^ 53"
  shows "f64 x = Finite (f64_round x)"
proof -
  from assms have "f64_round x \<le> of_nat N" by (rule f64_round_le_nat)
  also have "(of_nat N :: rat) < 2 powi 53"
  proof -
    from assms(3) have "(of_nat N :: rat) < of_nat (2 ^ 53)" by (simp only: of_nat_less_iff)
    then show ?thesis by simp
  qed
  also have "(2::rat) powi 53 \<le> 2 powi 1024" by (intro power_int_increasing) simp_all
  finally have "f64_round x < 2 powi 1024" .
  with f64_round_nonneg [OF assms(1)] show ?thesis by (intro f64_finite) simp
qed

subsection \<open>Counting\<close>

lemma count_true_le_length: "count_true p g \<le> length g"
  by (simp add: count_true_def)

lemma count_true_mono:
  "(\<And>x. x \<in> set g \<Longrightarrow> p x \<Longrightarrow> q x) \<Longrightarrow> count_true p g \<le> count_true q g"
  unfolding count_true_def by (induction g) auto

lemma count_true_disjoint:
  "(\<And>x. x \<in> set g \<Longrightarrow> \<not> (p x \<and> q x)) \<Longrightarrow>
   count_true p g + count_true q g = count_true (\<lambda>x. p x \<or> q x) g"
  unfolding count_true_def by (induction g) auto

lemma flags_exclusive:
  "\<not> (is_success_delay r \<and> is_failure_delay snapshot r)"
  "\<not> (is_success_delay r \<and> is_canceled_delay snapshot r)"
  "\<not> (is_failure_delay snapshot r \<and> is_canceled_delay snapshot r)"
  by (auto simp: is_success_delay_def is_failure_delay_def is_canceled_delay_def
      is_success_def is_canceled_def)

lemma delay_count_le_length:
  "count_true is_success_delay g + count_true (is_failure_delay snapshot) g +
   count_true (is_canceled_delay snapshot) g \<le> length g"
proof -
  have "count_true is_success_delay g + count_true (is_failure_delay snapshot) g =
        count_true (\<lambda>r. is_success_delay r \<or> is_failure_delay snapshot r) g"
    by (rule count_true_disjoint) (simp add: flags_exclusive)
  moreover have
    "count_true (\<lambda>r. is_success_delay r \<or> is_failure_delay snapshot r) g +
     count_true (is_canceled_delay snapshot) g =
     count_true (\<lambda>r. (is_success_delay r \<or> is_failure_delay snapshot r) \<or>
        is_canceled_delay snapshot r) g"
    by (rule count_true_disjoint) (use flags_exclusive in blast)
  ultimately show ?thesis by (simp add: count_true_le_length)
qed

lemma intensity_flagged:
  "delay_intensity snapshot r \<noteq> None \<Longrightarrow>
   is_failure_delay snapshot r \<or> is_canceled_delay snapshot r"
  by (auto simp: delay_intensity_def split: if_splits)

lemma bucket_count:
  "count_true (\<lambda>r. delay_intensity snapshot r = Some Days_1_3) g +
   count_true (\<lambda>r. delay_intensity snapshot r = Some Days_4_7) g +
   count_true (\<lambda>r. delay_intensity snapshot r = Some Days_7_plus) g =
   count_true (\<lambda>r. delay_intensity snapshot r \<noteq> None) g"
  unfolding count_true_def
proof (induction g)
  case Nil
  show ?case by simp
next
  case (Cons r g)
  show ?case
  proof (cases "delay_intensity snapshot r")
    case None
    with Cons show ?thesis by simp
  next
    case (Some c)
    with Cons show ?thesis by (cases c) simp_all
  qed
qed

lemma flagged_count:
  "count_true (is_failure_delay snapshot) g + count_true (is_canceled_delay snapshot) g =
   count_true (\<lambda>r. is_failure_delay snapshot r \<or> is_canceled_delay snapshot r) g"
  by (rule count_true_disjoint) (simp add: flags_exclusive)

lemma flagged_duration:
  assumes "is_failure_delay snapshot r \<or> is_canceled_delay snapshot r"
  shows "\<exists>d. delay_duration snapshot r = Some d \<and> 0 \<le> d"
proof -
  from assms have "ts_lt (order_estimated_delivery_date r) snapshot"
    by (auto simp: is_failure_delay_def is_canceled_delay_def)
  then obtain e s where "order_estimated_delivery_date r = Some e" "snapshot = Some s" "e < s"
    by (auto simp: ts_lt_def split: option.splits)
  then show ?thesis
    by (simp add: delay_duration_def ts_sub_def dt_days_def day_ns_def pos_imp_zdiv_nonneg_iff)
qed

lemma group_nonempty:
  "Some s \<in> set (map customer_state df) \<Longrightarrow> group_rows df s \<noteq> []"
  by (auto simp: group_rows_def filter_empty_conv)

lemma count_notna_order_id:
  "count_notna (map order_id g) = length (filter (\<lambda>r. order_id r \<noteq> None) g)"
  unfolding count_notna_def
proof (induction g)
  case Nil
  show ?case by simp
next
  case (Cons r g)
  then show ?case by (cases "order_id r") simp_all
qed

subsection \<open>A ratio in percent, rounded to two decimals\<close>

text \<open>
  For a quotient \<open>q\<close> between 0 and 1, the cell \<open>round(q * 100, 2)\<close> is the \<open>float64\<close>
  nearest to \<open>k / 100\<close> for a whole number \<open>k\<close> of hundredths between 0 and 10000, and
  \<open>k\<close> is within a half, and the error of three \<open>float64\<close> operations, of
  \<open>q * 10000\<close>.
\<close>

lemma percent_round2:
  assumes "0 \<le> q" and "q \<le> 1"
  shows "\<exists>k::int. np_round2 (f64_mul100 (f64 q)) = Finite (f64_round (of_int k / 100)) \<and>
           0 \<le> k \<and> k \<le> 10000 \<and>
           \<bar>of_int k - q * 10000\<bar> \<le> 1 / 2 + 1 / 2 ^ 37"
proof -
  let ?d1 = "f64_round q"
  let ?d2 = "f64_round (?d1 * 100)"
  let ?d3 = "f64_round (?d2 * 100)"
  let ?k = "round_half_even ?d3"
  have q1: "q \<le> of_nat 1" using assms(2) by simp
  have n1: "(1::nat) < 2 ^ 53" by simp
  have d1: "0 \<le> ?d1" "?d1 \<le> 1"
    using f64_round_nonneg [OF assms(1)] f64_round_le_nat [OF assms(1) q1 n1] by simp_all
  have f1: "f64 q = Finite ?d1"
    by (rule f64_finite_nat [OF assms(1) q1 n1])
  have e1: "\<bar>?d1 - q\<bar> \<le> 1 / 2 ^ 53"
    using f64_round_error [of q 0] assms by (simp add: power_int_minus_divide)
  have x2: "0 \<le> ?d1 * 100" "?d1 * 100 \<le> of_nat 100"
    using d1 by simp_all
  have n2: "(100::nat) < 2 ^ 53" by simp
  have d2: "0 \<le> ?d2" "?d2 \<le> 100"
    using f64_round_nonneg [OF x2(1)] f64_round_le_nat [OF x2 n2] by simp_all
  have f2: "f64 (?d1 * 100) = Finite ?d2"
    by (rule f64_finite_nat [OF x2 n2])
  have e2: "\<bar>?d2 - ?d1 * 100\<bar> \<le> 1 / 2 ^ 46"
    using f64_round_error [of "?d1 * 100" 7] x2 by (simp add: power_int_minus_divide)
  have x3: "0 \<le> ?d2 * 100" "?d2 * 100 \<le> of_nat 10000"
    using d2 by simp_all
  have n3: "(10000::nat) < 2 ^ 53" by simp
  have d3: "0 \<le> ?d3" "?d3 \<le> 10000"
    using f64_round_nonneg [OF x3(1)] f64_round_le_nat [OF x3 n3] by simp_all
  have f3: "f64 (?d2 * 100) = Finite ?d3"
    by (rule f64_finite_nat [OF x3 n3])
  have e3: "\<bar>?d3 - ?d2 * 100\<bar> \<le> 1 / 2 ^ 39"
    using f64_round_error [of "?d2 * 100" 14] x3 by (simp add: power_int_minus_divide)
  have k: "0 \<le> ?k" "?k \<le> 10000"
    using round_half_even_ge [of 0 ?d3] round_half_even_le [of ?d3 10000] d3 by simp_all
  have e4: "\<bar>of_int ?k - ?d3\<bar> \<le> 1 / 2"
    by (rule round_half_even_near)
  have x4: "0 \<le> (of_int ?k :: rat) / 100" "(of_int ?k :: rat) / 100 \<le> of_nat 100"
    using k by simp_all
  have f4: "f64 (of_int ?k / 100) = Finite (f64_round (of_int ?k / 100))"
    by (rule f64_finite_nat [OF x4 n2])
  have cell: "np_round2 (f64_mul100 (f64 q)) = Finite (f64_round (of_int ?k / 100))"
    by (simp add: np_round2_def f64_mul100_def np_rint_def f64_div100_def f1 f2 f3 f4)
  have "\<bar>of_int ?k - q * 10000\<bar> \<le> 1 / 2 + 1 / 2 ^ 39 + 100 / 2 ^ 46 + 10000 / 2 ^ 53"
    using e1 e2 e3 e4 by linarith
  also have "\<dots> \<le> 1 / 2 + 1 / 2 ^ 37" by simp
  finally have err: "\<bar>of_int ?k - q * 10000\<bar> \<le> 1 / 2 + 1 / 2 ^ 37" .
  from cell k err show ?thesis by blast
qed

lemma f64_round_one: "f64_round 1 = 1"
  using f64_round_of_nat [of 1] by simp

text \<open>The converted counts keep their order, and a positive count stays positive.\<close>

lemma f64_of_nat_mono: "n \<le> t \<Longrightarrow> f64_of_nat n \<le> f64_of_nat t"
  unfolding f64_of_nat_def by (rule f64_round_mono) simp_all

lemma f64_of_nat_nonneg: "0 \<le> f64_of_nat n"
  unfolding f64_of_nat_def by (rule f64_round_nonneg) simp

lemma f64_of_nat_pos: "0 < t \<Longrightarrow> 1 \<le> f64_of_nat t"
proof -
  assume "0 < t"
  then have "(1::rat) \<le> of_nat t" by simp
  from f64_round_mono [OF _ this] show ?thesis by (simp add: f64_of_nat_def f64_round_one)
qed

lemma f64_of_nat_zero: "f64_of_nat 0 = 0"
  by (simp add: f64_of_nat_def f64_round_def)

lemma f64_of_nat_exact: "n < 2 ^ 53 \<Longrightarrow> f64_of_nat n = of_nat n"
  by (simp add: f64_of_nat_def f64_round_of_nat)

text \<open>What the script computes for 23 delayed orders out of 160: the exact ratio
  14.375 lies midway between two hundredths, the \<open>float64\<close> product is just below
  it, and the cell is the \<open>float64\<close> of 14.37.\<close>

lemma total_delay_ratio_23_of_160:
  "np_round2 (f64_mul100 (f64_truediv (f64_of_nat 23) (f64_of_nat 160))) =
     f64 (1437 / 100)"
  by code_simp

subsection \<open>The revenue-loss column\<close>

lemma collect_Inr:
  "collect (map f xs) = Inr ys \<Longrightarrow> list_all2 (\<lambda>x y. f x = Inr y) xs ys"
proof (induction xs arbitrary: ys)
  case Nil
  then show ?case by simp
next
  case (Cons x xs)
  from Cons.prems obtain v vs where "f x = Inr v" "collect (map f xs) = Inr vs" "ys = v # vs"
    by (auto simp: then_do_def split: sum.splits)
  with Cons.IH show ?case by simp
qed

lemma collect_Inl:
  "x \<in> set xs \<Longrightarrow> f x = Inl e \<Longrightarrow> \<exists>e'. collect (map f xs) = Inl e'"
  by (induction xs) (auto simp: then_do_def split: sum.splits)

lemma collect_total:
  "(\<And>x. x \<in> set xs \<Longrightarrow> \<exists>y. f x = Inr y) \<Longrightarrow>
   \<exists>ys. collect (map f xs) = Inr ys \<and> length ys = length xs"
proof (induction xs)
  case Nil
  show ?case by simp
next
  case (Cons x xs)
  from Cons.prems obtain y where y: "f x = Inr y" by auto
  from Cons.IH Cons.prems obtain ys where "collect (map f xs) = Inr ys" "length ys = length xs"
    by auto
  with y show ?case by (simp add: then_do_def)
qed

text \<open>Every row that line 98 yields is a row of line 97 with its new cell.\<close>

lemma add_revenue_loss_row:
  assumes "add_revenue_loss zd rs = Inr rows" and "row \<in> set rows"
  shows "\<exists>r \<in> set rs. add_loss_ratio zd r = Inr row"
proof -
  from assms(1) have "list_all2 (\<lambda>r y. add_loss_ratio zd r = Inr y) rs rows"
    unfolding add_revenue_loss_def by (rule collect_Inr)
  then have len: "length rs = length rows"
    and nth: "\<And>i. i < length rows \<Longrightarrow> add_loss_ratio zd (rs ! i) = Inr (rows ! i)"
    by (simp_all add: list_all2_conv_all_nth)
  from assms(2) obtain i where i: "i < length rows" and row: "row = rows ! i"
    by (auto simp: in_set_conv_nth)
  from i len have "rs ! i \<in> set rs" by simp
  with nth [OF i] row show ?thesis by blast
qed

lemma add_loss_ratio_Inr:
  assumes "add_loss_ratio zd r = Inr row"
  shows "row = region_row.extend r (region_loss.fields (revenue_loss_ratio row)) \<and>
         canceled_delay_value row = canceled_delay_value r \<and>
         total_order_value row = total_order_value r \<and>
         (\<exists>q. price_truediv zd (canceled_delay_value r) (total_order_value r) = Inr q \<and>
              revenue_loss_ratio row = np_round2 (f64_mul100 q))"
  using assms
  by (auto simp: add_loss_ratio_def then_do_def region_row.defs region_loss.defs
      split: sum.splits)

section \<open>The claims\<close>

subsection \<open>Delay flags\<close>

text \<open>
  Claim C1. For every order record of the merged frame, with the snapshot date that
  \<open>load_and_process_data\<close> computes: \<open>is_success_delay\<close> holds iff the status is
  \<open>delivered\<close> and both dates are present with the delivery strictly after the
  estimate; \<open>is_failure_delay\<close> holds iff the status is neither \<open>delivered\<close> nor
  \<open>canceled\<close> and the estimate is strictly before the snapshot date;
  \<open>is_canceled_delay\<close> holds iff the status is \<open>canceled\<close> and the estimate is
  strictly before the snapshot date. The snapshot date is the largest purchase
  timestamp of the orders table plus one day.
\<close>

theorem delay_flags:
  "(is_success_delay r \<longleftrightarrow>
      order_status r = Some ''delivered'' \<and>
      (\<exists>d e. order_delivered_customer_date r = Some d \<and>
             order_estimated_delivery_date r = Some e \<and> e < d)) \<and>
   (is_failure_delay (snapshot_date (merged orders customers order_items)) r \<longleftrightarrow>
      order_status r \<noteq> Some ''delivered'' \<and> order_status r \<noteq> Some ''canceled'' \<and>
      (\<exists>e. order_estimated_delivery_date r = Some e \<and>
           set (dropna (map order_purchase_timestamp orders)) \<noteq> {} \<and>
           e < Max (set (dropna (map order_purchase_timestamp orders))) + day_ns)) \<and>
   (is_canceled_delay (snapshot_date (merged orders customers order_items)) r \<longleftrightarrow>
      order_status r = Some ''canceled'' \<and>
      (\<exists>e. order_estimated_delivery_date r = Some e \<and>
           set (dropna (map order_purchase_timestamp orders)) \<noteq> {} \<and>
           e < Max (set (dropna (map order_purchase_timestamp orders))) + day_ns))"
proof -
  have "is_success_delay r \<longleftrightarrow>
      order_status r = Some ''delivered'' \<and>
      (\<exists>d e. order_delivered_customer_date r = Some d \<and>
             order_estimated_delivery_date r = Some e \<and> e < d)"
    by (auto simp: is_success_delay_def is_success_def ts_lt_def split: option.splits)
  moreover have
    "is_failure_delay (snapshot_date (merged orders customers order_items)) r \<longleftrightarrow>
      order_status r \<noteq> Some ''delivered'' \<and> order_status r \<noteq> Some ''canceled'' \<and>
      (\<exists>e. order_estimated_delivery_date r = Some e \<and>
           set (dropna (map order_purchase_timestamp orders)) \<noteq> {} \<and>
           e < Max (set (dropna (map order_purchase_timestamp orders))) + day_ns)"
    by (auto simp: is_failure_delay_def is_success_def is_canceled_def ts_lt_def
        snapshot_date_merged split: option.splits)
  moreover have
    "is_canceled_delay (snapshot_date (merged orders customers order_items)) r \<longleftrightarrow>
      order_status r = Some ''canceled'' \<and>
      (\<exists>e. order_estimated_delivery_date r = Some e \<and>
           set (dropna (map order_purchase_timestamp orders)) \<noteq> {} \<and>
           e < Max (set (dropna (map order_purchase_timestamp orders))) + day_ns)"
    by (auto simp: is_canceled_delay_def is_canceled_def ts_lt_def
        snapshot_date_merged split: option.splits)
  ultimately show ?thesis by blast
qed

text \<open>On the small data set: the open order \<open>o3\<close>, half a day past its estimate.\<close>

theorem delay_flags_witness:
  "is_failure_delay (snapshot_date (merged ex_orders ex_customers ex_items))
     (merged ex_orders ex_customers ex_items ! 2) \<and>
   order_status (merged ex_orders ex_customers ex_items ! 2) \<noteq> Some ''delivered'' \<and>
   order_status (merged ex_orders ex_customers ex_items ! 2) \<noteq> Some ''canceled'' \<and>
   order_estimated_delivery_date (merged ex_orders ex_customers ex_items ! 2) =
     Some (41 * 43200000000000) \<and>
   Max (set (dropna (map order_purchase_timestamp ex_orders))) + day_ns =
     21 * 86400000000000"
proof -
  have st: "order_status (merged ex_orders ex_customers ex_items ! 2) = Some ''shipped''"
    by code_simp
  have est: "order_estimated_delivery_date (merged ex_orders ex_customers ex_items ! 2) =
      Some (41 * 43200000000000)"
    by code_simp
  have ps: "set (dropna (map order_purchase_timestamp ex_orders)) =
      {0, 20 * 86400000000000, 12 * 86400000000000}"
    by (simp add: ex_orders_def)
  have mx: "Max (set (dropna (map order_purchase_timestamp ex_orders))) + day_ns =
      21 * 86400000000000"
    unfolding ps by (simp add: day_ns_def)
  have ne: "set (dropna (map order_purchase_timestamp ex_orders)) \<noteq> {}"
    unfolding ps by simp
  from delay_flags [of "merged ex_orders ex_customers ex_items ! 2"
      ex_orders ex_customers ex_items] st est ne mx
  show ?thesis by simp
qed

subsection \<open>Counts and values per state\<close>




subsection \<open>The two ratio columns\<close>

text \<open>
  Claim C3. In every row of \<open>region_stats\<close>, \<open>'Total Delay Ratio (%)'\<close> is the sum of
  the three delay counts divided by \<open>total_orders\<close>, times 100, rounded to two
  decimals, each step being the \<open>float64\<close> operation. Where the delayed orders are
  at most \<open>total_orders\<close> (and these fewer than \<open>2 ^ 53\<close>), the cell is the \<open>float64\<close>
  nearest to a whole number \<open>k\<close> of hundredths, and \<open>k\<close> differs from the exact ratio
  in hundredths by a half at most, up to the error of the \<open>float64\<close> operations.
\<close>

theorem total_delay_ratio_formula:
  assumes "row \<in> set (region_stats orders customers order_items)"
  shows "total_delay_ratio row =
           np_round2 (f64_mul100 (f64_truediv
             (f64_of_nat (success_delay_cnt row + failure_delay_cnt row +
                canceled_delay_cnt row))
             (f64_of_nat (total_orders row)))) \<and>
         (0 < total_orders row \<and>
          success_delay_cnt row + failure_delay_cnt row + canceled_delay_cnt row
            \<le> total_orders row \<and>
          total_orders row < 2 ^ 53 \<longrightarrow>
            (\<exists>k::int. total_delay_ratio row = Finite (f64_round (of_int k / 100)) \<and>
               0 \<le> k \<and> k \<le> 10000 \<and>
               \<bar>of_int k -
                 (of_nat (success_delay_cnt row + failure_delay_cnt row +
                    canceled_delay_cnt row) :: rat) / of_nat (total_orders row) * 10000\<bar>
               \<le> 1 / 2 + 1 / 2 ^ 37))"
proof -
  let ?n = "success_delay_cnt row + failure_delay_cnt row + canceled_delay_cnt row"
  let ?t = "total_orders row"
  from assms obtain a where row: "row = add_delay_ratio a"
    using region_stats_of_row [of row] by (auto simp: region_stats_def)
  have formula: "total_delay_ratio row =
      np_round2 (f64_mul100 (f64_truediv (f64_of_nat ?n) (f64_of_nat ?t)))"
    unfolding row by (simp add: ratio_add_delay_ratio)
  have "\<exists>k::int. total_delay_ratio row = Finite (f64_round (of_int k / 100)) \<and>
          0 \<le> k \<and> k \<le> 10000 \<and>
          \<bar>of_int k - (of_nat ?n :: rat) / of_nat ?t * 10000\<bar> \<le> 1 / 2 + 1 / 2 ^ 37"
    if pos: "0 < ?t" and le: "?n \<le> ?t" and small: "?t < 2 ^ 53"
  proof -
    let ?q = "(of_nat ?n :: rat) / of_nat ?t"
    from le small have nsmall: "?n < 2 ^ 53" by simp
    have conv: "f64_of_nat ?n = of_nat ?n" "f64_of_nat ?t = of_nat ?t"
      using nsmall small by (simp_all only: f64_of_nat_exact)
    from pos have tz: "(of_nat ?t :: rat) \<noteq> 0" by simp
    have div: "f64_truediv (f64_of_nat ?n) (f64_of_nat ?t) = f64 ?q"
      unfolding conv using tz by (simp only: f64_truediv_def if_False)
    have q0: "0 \<le> ?q" by (intro divide_nonneg_nonneg of_nat_0_le_iff)
    from le have "(of_nat ?n :: rat) \<le> of_nat ?t" by (simp only: of_nat_le_iff)
    with pos have q1: "?q \<le> 1"
      by (simp only: divide_le_eq_1 of_nat_0_less_iff simp_thms)
    from percent_round2 [OF q0 q1] show ?thesis
      unfolding formula div .
  qed
  with formula show ?thesis by blast
qed

text \<open>On the small data set, the row of \<open>SP\<close>: two delayed orders out of two.\<close>

theorem total_delay_ratio_formula_witness:
  "region_stats ex_orders ex_customers ex_items ! 1
     \<in> set (region_stats ex_orders ex_customers ex_items) \<and>
   0 < total_orders (region_stats ex_orders ex_customers ex_items ! 1) \<and>
   total_orders (region_stats ex_orders ex_customers ex_items ! 1) < 2 ^ 53 \<and>
   total_delay_ratio (region_stats ex_orders ex_customers ex_items ! 1) = Finite 100 \<and>
   (\<exists>k::int. total_delay_ratio (region_stats ex_orders ex_customers ex_items ! 1) =
        Finite (f64_round (of_int k / 100)) \<and> 0 \<le> k \<and> k \<le> 10000)"
proof -
  let ?row = "region_stats ex_orders ex_customers ex_items ! 1"
  have h: "?row \<in> set (region_stats ex_orders ex_customers ex_items)"
    by code_simp
  have t: "total_orders ?row = 2"
    by code_simp
  have n: "success_delay_cnt ?row + failure_delay_cnt ?row + canceled_delay_cnt ?row = 2"
    by code_simp
  from t have p: "0 < total_orders ?row" and s: "total_orders ?row < 2 ^ 53"
    by simp_all
  from n t have le: "success_delay_cnt ?row + failure_delay_cnt ?row +
      canceled_delay_cnt ?row \<le> total_orders ?row"
    by simp
  from total_delay_ratio_formula [OF h] p le s
  have k: "\<exists>k::int. total_delay_ratio ?row = Finite (f64_round (of_int k / 100)) \<and>
      0 \<le> k \<and> k \<le> 10000"
    by blast
  have v: "np_round2 (f64_mul100 (f64_truediv
             (f64_of_nat (success_delay_cnt ?row + failure_delay_cnt ?row +
                canceled_delay_cnt ?row))
             (f64_of_nat (total_orders ?row)))) = Finite 100"
    by code_simp
  from total_delay_ratio_formula [OF h]
  have "total_delay_ratio ?row =
      np_round2 (f64_mul100 (f64_truediv
        (f64_of_nat (success_delay_cnt ?row + failure_delay_cnt ?row +
           canceled_delay_cnt ?row))
        (f64_of_nat (total_orders ?row))))"
    by (rule conjunct1)
  then have r: "total_delay_ratio ?row = Finite 100"
    by (simp only: v)
  from h p s r k show ?thesis by (intro conjI)
qed

text \<open>
  Claim C4. In every row that line 98 yields, \<open>'Revenue Loss Ratio (%)'\<close> is
  \<open>canceled_delay_value\<close> divided by \<open>total_order_value\<close>, times 100, rounded to two
  decimals, each step being the \<open>float64\<close> operation; where the canceled-delay value
  is between 0 and a total that is not zero, the cell is the \<open>float64\<close> nearest to a
  whole number of hundredths as for the delay ratio. Nothing guards a zero
  \<open>total_order_value\<close>: the division is made, its result (\<open>NaN\<close> or an infinity for
  \<open>float64\<close> columns) goes into the cell, and if it raises, line 98 raises. With
  \<open>float64\<close> columns line 98 always yields its rows.
\<close>

theorem revenue_loss_ratio_formula:
  "(add_revenue_loss zd (region_stats orders customers order_items) = Inr rows \<and>
    row \<in> set rows \<longrightarrow>
      (\<exists>r \<in> set (region_stats orders customers order_items).
          row = region_row.extend r (region_loss.fields (revenue_loss_ratio row))) \<and>
      (total_order_value row \<noteq> 0 \<longrightarrow>
         revenue_loss_ratio row =
           np_round2 (f64_mul100 (f64
             (canceled_delay_value row / total_order_value row)))) \<and>
      (0 \<le> canceled_delay_value row \<and>
       canceled_delay_value row \<le> total_order_value row \<and>
       total_order_value row \<noteq> 0 \<longrightarrow>
         (\<exists>k::int. revenue_loss_ratio row = Finite (f64_round (of_int k / 100)) \<and>
            0 \<le> k \<and> k \<le> 10000 \<and>
            \<bar>of_int k - canceled_delay_value row / total_order_value row * 10000\<bar>
            \<le> 1 / 2 + 1 / 2 ^ 37)) \<and>
      (total_order_value row = 0 \<longrightarrow>
         (\<exists>q. zd (canceled_delay_value row) = Inr q \<and>
              revenue_loss_ratio row = np_round2 (f64_mul100 q)))) \<and>
   (r \<in> set (region_stats orders customers order_items) \<and>
    total_order_value r = 0 \<and> zd (canceled_delay_value r) = Inl e \<longrightarrow>
      (\<exists>e'. add_revenue_loss zd (region_stats orders customers order_items) = Inl e')) \<and>
   (\<exists>rows'. add_revenue_loss float64_zero_division
       (region_stats orders customers order_items) = Inr rows' \<and>
     length rows' = length (region_stats orders customers order_items))"
proof -
  let ?rs = "region_stats orders customers order_items"
  have rows: "(\<exists>r \<in> set ?rs.
          row = region_row.extend r (region_loss.fields (revenue_loss_ratio row))) \<and>
      (total_order_value row \<noteq> 0 \<longrightarrow>
         revenue_loss_ratio row =
           np_round2 (f64_mul100 (f64
             (canceled_delay_value row / total_order_value row)))) \<and>
      (0 \<le> canceled_delay_value row \<and>
       canceled_delay_value row \<le> total_order_value row \<and>
       total_order_value row \<noteq> 0 \<longrightarrow>
         (\<exists>k::int. revenue_loss_ratio row = Finite (f64_round (of_int k / 100)) \<and>
            0 \<le> k \<and> k \<le> 10000 \<and>
            \<bar>of_int k - canceled_delay_value row / total_order_value row * 10000\<bar>
            \<le> 1 / 2 + 1 / 2 ^ 37)) \<and>
      (total_order_value row = 0 \<longrightarrow>
         (\<exists>q. zd (canceled_delay_value row) = Inr q \<and>
              revenue_loss_ratio row = np_round2 (f64_mul100 q)))"
    if ok: "add_revenue_loss zd ?rs = Inr rows" and mem: "row \<in> set rows"
  proof -
    let ?c = "canceled_delay_value row"
    let ?v = "total_order_value row"
    from add_revenue_loss_row [OF ok mem] obtain r0
      where r0: "r0 \<in> set ?rs" and step: "add_loss_ratio zd r0 = Inr row" by blast
    from add_loss_ratio_Inr [OF step] obtain q
      where ext: "row = region_row.extend r0 (region_loss.fields (revenue_loss_ratio row))"
        and c: "?c = canceled_delay_value r0" and v: "?v = total_order_value r0"
        and dv: "price_truediv zd (canceled_delay_value r0) (total_order_value r0) = Inr q"
        and cell: "revenue_loss_ratio row = np_round2 (f64_mul100 q)"
      by blast
    from dv have dv': "price_truediv zd ?c ?v = Inr q" by (simp only: c v)
    have nz: "revenue_loss_ratio row = np_round2 (f64_mul100 (f64 (?c / ?v)))"
      if "?v \<noteq> 0"
      using dv' that cell by (simp add: price_truediv_def)
    have bound: "\<exists>k::int. revenue_loss_ratio row = Finite (f64_round (of_int k / 100)) \<and>
            0 \<le> k \<and> k \<le> 10000 \<and> \<bar>of_int k - ?c / ?v * 10000\<bar> \<le> 1 / 2 + 1 / 2 ^ 37"
      if c0: "0 \<le> ?c" and cv: "?c \<le> ?v" and vz: "?v \<noteq> 0"
    proof -
      from c0 cv vz have vpos: "0 < ?v" by simp
      with c0 have q0: "0 \<le> ?c / ?v" by simp
      from cv vpos have q1: "?c / ?v \<le> 1" by simp
      from percent_round2 [OF q0 q1] show ?thesis
        unfolding nz [OF vz] .
    qed
    have zero: "\<exists>q. zd ?c = Inr q \<and> revenue_loss_ratio row = np_round2 (f64_mul100 q)"
      if "?v = 0"
      using dv' that cell by (simp add: price_truediv_def)
    from r0 ext nz bound zero show ?thesis by blast
  qed
  have raises: "\<exists>e'. add_revenue_loss zd ?rs = Inl e'"
    if "r \<in> set ?rs" and "total_order_value r = 0" and "zd (canceled_delay_value r) = Inl e"
  proof -
    from that(2,3) have "add_loss_ratio zd r = Inl e"
      by (simp add: add_loss_ratio_def price_truediv_def then_do_def)
    with that(1) show ?thesis
      unfolding add_revenue_loss_def by (rule collect_Inl)
  qed
  have total: "\<exists>rows'. add_revenue_loss float64_zero_division ?rs = Inr rows' \<and>
      length rows' = length ?rs"
    unfolding add_revenue_loss_def
    by (rule collect_total)
      (simp add: add_loss_ratio_def price_truediv_def float64_zero_division_def then_do_def)
  from rows raises total show ?thesis by blast
qed

text \<open>On the small data set with \<open>float64\<close> columns: the row of \<open>SP\<close> (30 lost out of
  180) and the row of \<open>RJ\<close>, whose only order has no items; and with Python numbers
  in the columns, where the row of \<open>RJ\<close> makes line 98 raise.\<close>

theorem revenue_loss_ratio_formula_witness:
  "add_revenue_loss float64_zero_division (region_stats ex_orders ex_customers ex_items) =
     Inr ex_loss \<and>
   region (ex_loss ! 1) = ''SP'' \<and>
   total_order_value (ex_loss ! 1) = 180 \<and>
   canceled_delay_value (ex_loss ! 1) = 30 \<and>
   revenue_loss_ratio (ex_loss ! 1) = f64 (1667 / 100) \<and>
   (\<exists>k::int. revenue_loss_ratio (ex_loss ! 1) = Finite (f64_round (of_int k / 100)) \<and>
        0 \<le> k \<and> k \<le> 10000) \<and>
   region (ex_loss ! 0) = ''RJ'' \<and>
   total_order_value (ex_loss ! 0) = 0 \<and>
   revenue_loss_ratio (ex_loss ! 0) = NaN \<and>
   add_revenue_loss object_zero_division (region_stats ex_orders ex_customers ex_items) =
     Inl (Exception ''ZeroDivisionError'')"
proof -
  let ?rs = "region_stats ex_orders ex_customers ex_items"
  have ok: "add_revenue_loss float64_zero_division ?rs = Inr ex_loss"
    by code_simp
  have m1: "ex_loss ! 1 \<in> set ex_loss" and m0: "ex_loss ! 0 \<in> set ex_loss"
    by code_simp+
  have g1: "region (ex_loss ! 1) = ''SP''" and g0: "region (ex_loss ! 0) = ''RJ''"
    by code_simp+
  have t1: "total_order_value (ex_loss ! 1) = 180" and c1: "canceled_delay_value (ex_loss ! 1) = 30"
    and t0: "total_order_value (ex_loss ! 0) = 0" and c0: "canceled_delay_value (ex_loss ! 0) = 0"
    by code_simp+
  have v1: "np_round2 (f64_mul100 (f64 (30 / 180))) = f64 (1667 / 100)"
    by code_simp
  have z0: "np_round2 (f64_mul100 NaN) = NaN"
    by (simp add: np_round2_def f64_mul100_def np_rint_def f64_div100_def)
  have r0: "?rs ! 0 \<in> set ?rs" and rt: "total_order_value (?rs ! 0) = 0"
    and rz: "object_zero_division (canceled_delay_value (?rs ! 0)) =
      Inl (Exception ''ZeroDivisionError'')"
    by code_simp+
  note t = revenue_loss_ratio_formula
  from t [of float64_zero_division ex_orders ex_customers ex_items ex_loss "ex_loss ! 1"]
    ok m1 t1 c1 v1
  have r1: "revenue_loss_ratio (ex_loss ! 1) = f64 (1667 / 100)"
    by simp
  from t1 c1 have hyp: "0 \<le> canceled_delay_value (ex_loss ! 1) \<and>
      canceled_delay_value (ex_loss ! 1) \<le> total_order_value (ex_loss ! 1) \<and>
      total_order_value (ex_loss ! 1) \<noteq> 0"
    by simp
  from t [of float64_zero_division ex_orders ex_customers ex_items ex_loss "ex_loss ! 1"]
    ok m1 hyp
  have k1: "\<exists>k::int. revenue_loss_ratio (ex_loss ! 1) = Finite (f64_round (of_int k / 100)) \<and>
      0 \<le> k \<and> k \<le> 10000"
    by blast
  from t [of float64_zero_division ex_orders ex_customers ex_items ex_loss "ex_loss ! 0"]
    ok m0 t0 c0 z0
  have r0': "revenue_loss_ratio (ex_loss ! 0) = NaN"
    by (auto simp: float64_zero_division_def)
  from t [of object_zero_division ex_orders ex_customers ex_items _ _ "?rs ! 0"
      "Exception ''ZeroDivisionError''"] r0 rt rz
  obtain e' where e': "add_revenue_loss object_zero_division ?rs = Inl e'"
    by blast
  have "add_revenue_loss object_zero_division ?rs = Inl e' \<longrightarrow>
      add_revenue_loss object_zero_division ?rs = Inl (Exception ''ZeroDivisionError'')"
    by code_simp
  with e' have raised: "add_revenue_loss object_zero_division ?rs =
      Inl (Exception ''ZeroDivisionError'')"
    by blast
  from ok g1 t1 c1 r1 k1 g0 t0 r0' raised show ?thesis by (intro conjI)
qed

subsection \<open>Loading with fallback\<close>

text \<open>
  Claim C5, as the code has it. When the three parquet files are read without an
  exception, their data is used. When reading any of them raises, the exception is
  dropped and the three CSV files are read instead; the fallback itself is not
  protected: the first exception of a CSV read is the outcome of the loading step,
  and of \<open>load_and_process_data\<close>.
\<close>

theorem load_datasets_fallback:
  "(orders_parquet fs = Inr p_orders \<and> customers_parquet fs = Inr p_customers \<and>
    order_items_parquet fs = Inr p_items \<longrightarrow>
      load_datasets fs = Inr (p_orders, p_customers, p_items)) \<and>
   (isl (orders_parquet fs) \<or> isl (customers_parquet fs) \<or>
    isl (order_items_parquet fs) \<longrightarrow>
      load_datasets fs =
        (case orders_csv fs of
           Inl e \<Rightarrow> Inl e
         | Inr c_orders \<Rightarrow>
             (case customers_csv fs of
                Inl e \<Rightarrow> Inl e
              | Inr c_customers \<Rightarrow>
                  (case order_items_csv fs of
                     Inl e \<Rightarrow> Inl e
                   | Inr c_items \<Rightarrow> Inr (c_orders, c_customers, c_items))))) \<and>
   (load_datasets fs = Inl e \<longrightarrow> load_and_process_data zd qc fs = Inl e)"
  by (auto simp: load_and_process_data_def load_datasets_def try_except_def
      read_all_parquet_def read_all_csv_def then_do_def isl_def split: sum.splits)

text \<open>On the three file systems: parquet files readable; the orders parquet file
  unreadable and the CSV files readable; nothing readable.\<close>

theorem load_datasets_fallback_witness:
  "load_datasets ex_parquet_files = Inr (ex_orders, ex_customers, ex_items) \<and>
   isl (orders_parquet ex_files) \<and>
   load_datasets ex_files = Inr (ex_orders, ex_customers, ex_items) \<and>
   isl (orders_parquet ex_no_files) \<and>
   load_datasets ex_no_files = Inl (Exception ''olist_orders_dataset.csv'') \<and>
   load_and_process_data float64_zero_division (\<lambda>column. Inl (Exception ''qcut''))
       ex_no_files =
     Inl (Exception ''olist_orders_dataset.csv'')"
proof -
  have a: "load_datasets ex_parquet_files = Inr (ex_orders, ex_customers, ex_items)"
    using load_datasets_fallback [of ex_parquet_files ex_orders ex_customers ex_items]
    by (simp add: ex_parquet_files_def)
  have b: "load_datasets ex_files = Inr (ex_orders, ex_customers, ex_items)"
    using load_datasets_fallback [of ex_files] by (simp add: ex_files_def)
  have c: "load_datasets ex_no_files = Inl (Exception ''olist_orders_dataset.csv'')"
    using load_datasets_fallback [of ex_no_files] by (simp add: ex_no_files_def)
  have d: "load_and_process_data float64_zero_division (\<lambda>column. Inl (Exception ''qcut''))
        ex_no_files =
      Inl (Exception ''olist_orders_dataset.csv'')"
    using load_datasets_fallback [of ex_no_files _ _ _ "Exception ''olist_orders_dataset.csv''"] c
    by simp
  from a b c d show ?thesis by (simp add: ex_files_def ex_no_files_def)
qed

text \<open>The claim as written lets no loading error out. With no file readable, the
  exception of the first CSV read is the outcome.\<close>

theorem load_datasets_csv_error_propagates:
  "load_datasets ex_no_files = Inl (Exception ''olist_orders_dataset.csv'')"
  by (simp add: load_datasets_def try_except_def read_all_parquet_def read_all_csv_def
      then_do_def ex_no_files_def)

subsection \<open>The GeoJSON fetch\<close>

text \<open>
  Claim C6. \<open>get_brazil_geojson\<close> never raises: it returns \<open>None\<close> when the HTTP fetch
  raises or when decoding the response raises, and the decoded JSON value otherwise.
\<close>

theorem get_brazil_geojson_result:
  "get_brazil_geojson requests_get response_json =
     Inr (case requests_get of
            Inl e \<Rightarrow> JNone
          | Inr response \<Rightarrow>
              (case response_json response of Inl e \<Rightarrow> JNone | Inr v \<Rightarrow> v))"
  by (simp add: get_brazil_geojson_def try_except_def then_do_def split: sum.splits)

subsection \<open>Exclusive flags and the bound on the delay ratio\<close>

text \<open>
  Claim C8, as the code has it. No order record has two of the three delay flags, so
  the numerator of \<open>'Total Delay Ratio (%)'\<close> is at most the number of order records
  of the region. The denominator \<open>total_orders\<close> counts the records whose \<open>order_id\<close> is
  present: for a region where every record has one, the ratio is a number between 0
  and 100.
\<close>

theorem delay_flags_exclusive_ratio_bound:
  assumes "row \<in> set (region_stats orders customers order_items)"
  shows "\<not> (is_success_delay r \<and> is_failure_delay snapshot r) \<and>
         \<not> (is_success_delay r \<and> is_canceled_delay snapshot r) \<and>
         \<not> (is_failure_delay snapshot r \<and> is_canceled_delay snapshot r) \<and>
         success_delay_cnt row + failure_delay_cnt row + canceled_delay_cnt row
           \<le> length (group_rows (merged orders customers order_items) (region row)) \<and>
         ((\<forall>x \<in> set (group_rows (merged orders customers order_items) (region row)).
             order_id x \<noteq> None) \<longrightarrow>
          (\<exists>q. total_delay_ratio row = Finite q \<and> 0 \<le> q \<and> q \<le> 100))"
proof -
  let ?df = "merged orders customers order_items"
  let ?g = "group_rows ?df (region row)"
  let ?a = "aggregate (snapshot_date ?df) (region row) ?g"
  let ?n = "success_delay_cnt row + failure_delay_cnt row + canceled_delay_cnt row"
  from assms have state: "Some (region row) \<in> set (map customer_state ?df)"
    and row: "row = add_delay_ratio ?a"
    using region_stats_of_row [of row ?df] by (simp_all add: region_stats_def)
  have n: "?n = count_true is_success_delay ?g +
      count_true (is_failure_delay (snapshot_date ?df)) ?g +
      count_true (is_canceled_delay (snapshot_date ?df)) ?g"
    by (subst (1 2 3) row) (simp add: aggregate_def)
  have le: "?n \<le> length ?g"
    unfolding n by (rule delay_count_le_length)
  have bound: "\<exists>q. total_delay_ratio row = Finite q \<and> 0 \<le> q \<and> q \<le> 100"
    if ids: "\<forall>x \<in> set ?g. order_id x \<noteq> None"
  proof -
    from ids have "filter (\<lambda>r. order_id r \<noteq> None) ?g = ?g"
      by (simp add: filter_id_conv)
    then have "count_notna (map order_id ?g) = length ?g"
      by (simp add: count_notna_order_id)
    then have total: "total_orders row = length ?g"
      by (subst row) (simp add: aggregate_def)
    from state have pos: "0 < length ?g"
      by (simp add: group_nonempty)
    let ?nf = "f64_of_nat ?n"
    let ?tf = "f64_of_nat (length ?g)"
    have tf: "1 \<le> ?tf" using pos by (rule f64_of_nat_pos)
    have nf: "0 \<le> ?nf" "?nf \<le> ?tf"
      using f64_of_nat_nonneg [of ?n] f64_of_nat_mono [OF le] by simp_all
    from tf have tz: "?tf \<noteq> 0" by simp
    have ratio: "total_delay_ratio row = np_round2 (f64_mul100 (f64 (?nf / ?tf)))"
    proof -
      have "total_delay_ratio row =
          np_round2 (f64_mul100 (f64_truediv ?nf (f64_of_nat (total_orders row))))"
        by (subst (1 2 3 4 5) row) (simp add: ratio_add_delay_ratio)
      with tz show ?thesis
        unfolding total by (simp only: f64_truediv_def if_False)
    qed
    from nf tf have q0: "0 \<le> ?nf / ?tf" by simp
    from nf tf have q1: "?nf / ?tf \<le> 1" by simp
    from percent_round2 [OF q0 q1] obtain k :: int
      where cell: "np_round2 (f64_mul100 (f64 (?nf / ?tf))) = Finite (f64_round (of_int k / 100))"
        and k0: "0 \<le> k" and k1: "k \<le> 10000"
      by blast
    have x: "0 \<le> (of_int k :: rat) / 100" "(of_int k :: rat) / 100 \<le> of_nat 100"
      using k0 k1 by simp_all
    have "(100::nat) < 2 ^ 53" by simp
    from f64_round_le_nat [OF x this] have hi: "f64_round (of_int k / 100) \<le> 100" by simp
    from f64_round_nonneg [OF x(1)] hi ratio cell show ?thesis by simp
  qed
  from le bound flags_exclusive [where r = r and snapshot = snapshot] show ?thesis by blast
qed

text \<open>On the small data set, the row of \<open>SP\<close>: both orders have an \<open>order_id\<close>.\<close>

theorem delay_flags_exclusive_ratio_bound_witness:
  "region_stats ex_orders ex_customers ex_items ! 1
     \<in> set (region_stats ex_orders ex_customers ex_items) \<and>
   list_all (\<lambda>x. order_id x \<noteq> None)
     (group_rows (merged ex_orders ex_customers ex_items)
        (region (region_stats ex_orders ex_customers ex_items ! 1))) \<and>
   (\<exists>q. total_delay_ratio (region_stats ex_orders ex_customers ex_items ! 1) = Finite q \<and>
        0 \<le> q \<and> q \<le> 100)"
proof -
  let ?row = "region_stats ex_orders ex_customers ex_items ! 1"
  let ?g = "group_rows (merged ex_orders ex_customers ex_items) (region ?row)"
  have h: "?row \<in> set (region_stats ex_orders ex_customers ex_items)"
    by code_simp
  have ids: "list_all (\<lambda>x. order_id x \<noteq> None) ?g"
    by code_simp
  then have "\<forall>x \<in> set ?g. order_id x \<noteq> None"
    by (simp only: list_all_iff)
  with delay_flags_exclusive_ratio_bound [OF h]
  have "\<exists>q. total_delay_ratio ?row = Finite q \<and> 0 \<le> q \<and> q \<le> 100"
    by blast
  with h ids show ?thesis by (intro conjI)
qed

text \<open>The claim as written bounds the ratio by 100 in every region. Below, the state
  \<open>SP\<close> has two delayed order records of which one has an \<open>order_id\<close>: two delays
  over one counted order.\<close>

theorem total_delay_ratio_above_100:
  "region (region_stats ex_anonymous_orders ex_customers ex_items ! 1) = ''SP'' \<and>
   total_delay_ratio (region_stats ex_anonymous_orders ex_customers ex_items ! 1) =
     Finite 200"
  by code_simp

subsection \<open>The delay-intensity buckets\<close>

text \<open>
  Claim C9. In every row of \<open>region_stats\<close> the three buckets together hold at most
  \<open>failure_delay_cnt + canceled_delay_cnt\<close> orders: they hold the records of the
  region that have a category, a category is given only to a record flagged
  \<open>is_failure_delay\<close> or \<open>is_canceled_delay\<close>, and a flagged record whose delay in
  whole days is zero or less gets none.
\<close>

theorem delay_intensity_buckets:
  assumes "row \<in> set (region_stats orders customers order_items)"
  shows "delay_1_3 row + delay_4_7 row + delay_7_plus row
           \<le> failure_delay_cnt row + canceled_delay_cnt row \<and>
         delay_1_3 row + delay_4_7 row + delay_7_plus row =
           length (filter
             (\<lambda>x. delay_intensity
                    (snapshot_date (merged orders customers order_items)) x \<noteq> None)
             (group_rows (merged orders customers order_items) (region row))) \<and>
         (delay_intensity snapshot r \<noteq> None \<longrightarrow>
            is_failure_delay snapshot r \<or> is_canceled_delay snapshot r) \<and>
         ((is_failure_delay snapshot r \<or> is_canceled_delay snapshot r) \<and>
          delay_duration snapshot r = Some d \<and> d \<le> 0 \<longrightarrow>
            delay_intensity snapshot r = None)"
proof -
  let ?df = "merged orders customers order_items"
  let ?snap = "snapshot_date ?df"
  let ?g = "group_rows ?df (region row)"
  let ?a = "aggregate ?snap (region row) ?g"
  from assms have row: "row = add_delay_ratio ?a"
    using region_stats_of_row [of row ?df] by (simp add: region_stats_def)
  have buckets: "delay_1_3 row + delay_4_7 row + delay_7_plus row =
      count_true (\<lambda>x. delay_intensity ?snap x \<noteq> None) ?g"
    by (subst (1 2 3) row) (simp add: aggregate_def bucket_count)
  have flagged: "failure_delay_cnt row + canceled_delay_cnt row =
      count_true (\<lambda>x. is_failure_delay ?snap x \<or> is_canceled_delay ?snap x) ?g"
    by (subst (1 2) row) (simp add: aggregate_def flagged_count)
  have "count_true (\<lambda>x. delay_intensity ?snap x \<noteq> None) ?g
      \<le> count_true (\<lambda>x. is_failure_delay ?snap x \<or> is_canceled_delay ?snap x) ?g"
    by (rule count_true_mono) (rule intensity_flagged)
  with buckets flagged
  have le: "delay_1_3 row + delay_4_7 row + delay_7_plus row
      \<le> failure_delay_cnt row + canceled_delay_cnt row"
    by simp
  have none: "delay_intensity snapshot r = None"
    if "delay_duration snapshot r = Some d" and "d \<le> 0"
    using that by (simp add: delay_intensity_def categorize_delay_def)
  from le buckets none intensity_flagged [of snapshot r] show ?thesis
    by (auto simp: count_true_def)
qed

text \<open>On the small data set: the row of \<open>RJ\<close>, whose only order \<open>o3\<close> is flagged with
  a delay of zero whole days and is in no bucket, and the canceled order \<open>o2\<close>, six
  days late.\<close>

theorem delay_intensity_buckets_witness:
  "region_stats ex_orders ex_customers ex_items ! 0
     \<in> set (region_stats ex_orders ex_customers ex_items) \<and>
   failure_delay_cnt (region_stats ex_orders ex_customers ex_items ! 0) = 1 \<and>
   delay_1_3 (region_stats ex_orders ex_customers ex_items ! 0) +
   delay_4_7 (region_stats ex_orders ex_customers ex_items ! 0) +
   delay_7_plus (region_stats ex_orders ex_customers ex_items ! 0) = 0 \<and>
   is_failure_delay (snapshot_date (merged ex_orders ex_customers ex_items))
     (merged ex_orders ex_customers ex_items ! 2) \<and>
   delay_duration (snapshot_date (merged ex_orders ex_customers ex_items))
     (merged ex_orders ex_customers ex_items ! 2) = Some 0 \<and>
   delay_intensity (snapshot_date (merged ex_orders ex_customers ex_items))
     (merged ex_orders ex_customers ex_items ! 2) = None \<and>
   delay_intensity (snapshot_date (merged ex_orders ex_customers ex_items))
     (merged ex_orders ex_customers ex_items ! 1) = Some Days_4_7 \<and>
   is_canceled_delay (snapshot_date (merged ex_orders ex_customers ex_items))
     (merged ex_orders ex_customers ex_items ! 1)"
proof -
  let ?df = "merged ex_orders ex_customers ex_items"
  let ?snap = "snapshot_date ?df"
  let ?row = "region_stats ex_orders ex_customers ex_items ! 0"
  have h: "?row \<in> set (region_stats ex_orders ex_customers ex_items)"
    by code_simp
  have f: "failure_delay_cnt ?row = 1"
    by code_simp
  have none: "length (filter (\<lambda>x. delay_intensity ?snap x \<noteq> None)
      (group_rows ?df (region ?row))) = 0"
    by code_simp
  have fl: "is_failure_delay ?snap (?df ! 2)"
    by code_simp
  have du: "delay_duration ?snap (?df ! 2) = Some 0"
    by code_simp
  have i2: "delay_intensity ?snap (?df ! 1) = Some Days_4_7"
    by code_simp
  have nc: "\<not> is_failure_delay ?snap (?df ! 1)"
    by code_simp
  note t3 = delay_intensity_buckets [OF h, of ?snap "?df ! 2" 0]
  note t2 = delay_intensity_buckets [OF h, of ?snap "?df ! 1" 0]
  from t3 none have b: "delay_1_3 ?row + delay_4_7 ?row + delay_7_plus ?row = 0"
    by (simp only:)
  from t3 fl du have i3: "delay_intensity ?snap (?df ! 2) = None"
    by blast
  from t2 i2 nc have c: "is_canceled_delay ?snap (?df ! 1)"
    by (simp only:) blast
  from h f b fl du i3 i2 c show ?thesis by (intro conjI)
qed

subsection \<open>The state filter\<close>

text \<open>
  Claim C10. With no state selected, \<open>filtered_data\<close> is the whole table; with some
  states selected, it is the table restricted to the rows whose state is selected.
\<close>

theorem filtered_data_rows:
  "(selected_states = [] \<longrightarrow> filtered_data selected_states data = data) \<and>
   (selected_states \<noteq> [] \<longrightarrow>
      filtered_data selected_states data =
        filter (\<lambda>r. region r \<in> set selected_states) data \<and>
      set (filtered_data selected_states data) =
        {r \<in> set data. region r \<in> set selected_states})"
  by (simp add: filtered_data_def)

text \<open>On the table of the small data set: no selection, and the selection of \<open>SP\<close>.\<close>

theorem filtered_data_rows_witness:
  "filtered_data [] ex_data = ex_data \<and>
   map region ex_data = [''RJ'', ''SP''] \<and>
   map region (filtered_data [''SP''] ex_data) = [''SP'']"
proof -
  have a: "filtered_data [] ex_data = ex_data"
    using filtered_data_rows [of "[]" ex_data] by simp
  have b: "filtered_data [''SP''] ex_data = filter (\<lambda>r. region r \<in> set [''SP'']) ex_data"
    using filtered_data_rows [of "[''SP'']" ex_data] by simp
  have c: "map region (filter (\<lambda>r. region r \<in> set [''SP'']) ex_data) = [''SP'']"
    by code_simp
  have d: "map region ex_data = [''RJ'', ''SP'']"
    by code_simp
  from a b c d show ?thesis by simp
qed

end

